theory Spec2Isabelle
  imports Complex_Main "HOL-Library.Sublist"
begin

section \<open>Data model of \<^verbatim>\<open>gform.py\<close>\<close>

text \<open>
  Exceptions that the modelled code can see.  \<open>KeyError\<close> carries the missing key (or the
  message of \<^verbatim>\<open>dict.popitem\<close>).  \<open>KeyboardInterrupt\<close> stands for the exceptions that
  derive from \<^verbatim>\<open>BaseException\<close> but not from \<^verbatim>\<open>Exception\<close>; every other
  constructor is a subclass of \<^verbatim>\<open>Exception\<close>.
\<close>

datatype pyexc =
    KeyError string
  | AttributeError string
  | AssertionError
  | TimeoutException
  | WebDriverException
  | EOFError
  | KeyboardInterrupt

fun is_Exception :: "pyexc \<Rightarrow> bool" where
  "is_Exception KeyboardInterrupt = False"
| "is_Exception _ = True"

text \<open>
  The raw form data is a dictionary of dictionaries.  Every key that the code looks up is an
  optional field (\<open>None\<close>: the key is absent); the three categories are ordered dictionaries,
  kept as association lists in iteration order.
\<close>

record text_meta =
  types :: "string list option"
  response :: "string option"
  textarea :: "bool option"

record radio_meta =
  choice :: "string option"
  choice_num :: "int option"

record checkbox_meta =
  choices :: "string list option"

record rawdata =
  rd_text :: "(string \<times> text_meta) list option"
  rd_radio :: "(string \<times> radio_meta) list option"
  rd_checkbox :: "(string \<times> checkbox_meta) list option"
  rd_url :: "string option"

text \<open>
  The mappings: \<^verbatim>\<open>'text'\<close> is an insertion-ordered dictionary from X-path to value,
  \<^verbatim>\<open>'radio'\<close> and \<^verbatim>\<open>'checkbox'\<close> are lists, \<^verbatim>\<open>'fallbacks'\<close> stays empty.
\<close>

record mappings =
  m_text :: "(string \<times> string) list"
  m_radio :: "string list"
  m_checkbox :: "string list"
  m_fallbacks :: "(string \<times> string) list"

text \<open>
  The attributes of a \<^verbatim>\<open>GForm\<close> object that \<^verbatim>\<open>__init__\<close> does not assign:
  \<open>None\<close> means that the attribute does not exist yet.
\<close>

record gform =
  g_mappings :: "mappings option"
  g_url :: "string option option"

section \<open>Python dictionaries and strings\<close>

text \<open>\<^verbatim>\<open>d[k] = v\<close>: an existing key keeps its position, a new key goes to the end.\<close>

fun dict_set :: "('k \<times> 'v) list \<Rightarrow> 'k \<Rightarrow> 'v \<Rightarrow> ('k \<times> 'v) list" where
  "dict_set [] k v = [(k, v)]"
| "dict_set ((k', v') # d) k v =
     (if k' = k then (k', v) # d else (k', v') # dict_set d k v)"

text \<open>\<^verbatim>\<open>d.popitem()\<close>: removes and returns the last inserted pair; raises on an empty dictionary.\<close>

definition popitem :: "('k \<times> 'v) list \<Rightarrow> pyexc + (('k \<times> 'v) \<times> ('k \<times> 'v) list)" where
  "popitem d =
     (if d = [] then Inl (KeyError ''popitem(): dictionary is empty'')
      else Inr (last d, butlast d))"

text \<open>\<^verbatim>\<open>sep.join(xs)\<close>\<close>

fun join :: "string \<Rightarrow> string list \<Rightarrow> string" where
  "join sep [] = []"
| "join sep [x] = x"
| "join sep (x # y # ys) = x @ sep @ join sep (y # ys)"

section \<open>The X-paths of \<^verbatim>\<open>create_mappings\<close>\<close>

definition type_test :: "string \<Rightarrow> string" where
  \<open>type_test ty = ''@type="'' @ ty @ ''"''\<close>

definition text_types :: "string list \<Rightarrow> string" where
  "text_types ts = join '' or '' (map type_test ts)"

definition span_contains :: "string \<Rightarrow> string" where
  \<open>span_contains lbl = ''//span[contains(text(), "'' @ lbl @ ''")]''\<close>

definition input_xpath :: "string \<Rightarrow> string list \<Rightarrow> string" where
  "input_xpath question ts =
     span_contains question @ ''/../../../..//input['' @ text_types ts @ '']''"

definition textarea_xpath :: "string \<Rightarrow> string" where
  "textarea_xpath question = span_contains question @ ''/../../../..//textarea''"

definition union_xpath :: "string \<Rightarrow> string \<Rightarrow> string" where
  "union_xpath key question = key @ '' | '' @ textarea_xpath question"

definition label_xpath :: "string \<Rightarrow> string" where
  "label_xpath c = span_contains c @ ''/../../../../..//label''"

section \<open>\<^verbatim>\<open>GForm.create_mappings\<close>\<close>

text \<open>
  One iteration of the loop over \<^verbatim>\<open>rawdata['text'].items()\<close>.  It returns the field's
  dictionary as the iteration leaves it (the loop writes the key \<^verbatim>\<open>'textarea'\<close> into it)
  and either the exception raised or the \<^verbatim>\<open>'text'\<close> mapping after the iteration.
\<close>

definition text_field ::
  "bool \<Rightarrow> string \<Rightarrow> text_meta \<Rightarrow> (string \<times> string) list
    \<Rightarrow> text_meta \<times> (pyexc + (string \<times> string) list)" where
  "text_field exhaustive question meta mt =
     (case (case types meta of
              None \<Rightarrow> Inr mt
            | Some ts \<Rightarrow>
                (case response meta of
                   None \<Rightarrow> Inl (KeyError ''response'')
                 | Some r \<Rightarrow> Inr (dict_set mt (input_xpath question ts) r))) of
        Inl e \<Rightarrow> (meta, Inl e)
      | Inr mt1 \<Rightarrow>
          (let meta1 = (if textarea meta = None
                        then meta\<lparr>textarea := Some (if exhaustive then True else False)\<rparr>
                        else meta)
           in if textarea meta1 = Some True
              then (case popitem mt1 of
                      Inl e \<Rightarrow> (meta1, Inl e)
                    | Inr ((key, val), mt2) \<Rightarrow>
                        (meta1, Inr (dict_set mt2 (union_xpath key question) val)))
              else (meta1, Inr mt1)))"

fun text_fields ::
  "bool \<Rightarrow> (string \<times> text_meta) list \<Rightarrow> (string \<times> string) list
    \<Rightarrow> (string \<times> text_meta) list \<times> (pyexc + (string \<times> string) list)" where
  "text_fields exhaustive [] mt = ([], Inr mt)"
| "text_fields exhaustive ((question, meta) # rest) mt =
     (case text_field exhaustive question meta mt of
        (meta', Inl e) \<Rightarrow> ((question, meta') # rest, Inl e)
      | (meta', Inr mt') \<Rightarrow>
          (case text_fields exhaustive rest mt' of
             (rest', r) \<Rightarrow> ((question, meta') # rest', r)))"

fun radio_fields :: "(string \<times> radio_meta) list \<Rightarrow> string list \<Rightarrow> pyexc + string list" where
  "radio_fields [] mr = Inr mr"
| "radio_fields ((question, meta) # rest) mr =
     (case choice meta of
        None \<Rightarrow> Inl (KeyError ''choice'')
      | Some c \<Rightarrow> radio_fields rest (mr @ [label_xpath c]))"

fun checkbox_fields ::
  "(string \<times> checkbox_meta) list \<Rightarrow> string list \<Rightarrow> pyexc + string list" where
  "checkbox_fields [] mc = Inr mc"
| "checkbox_fields ((question, meta) # rest) mc =
     (case choices meta of
        None \<Rightarrow> Inl (KeyError ''choices'')
      | Some cs \<Rightarrow> checkbox_fields rest (mc @ map label_xpath cs))"

text \<open>
  The method returns the exception or the mappings, the object after the call and the caller's
  \<^verbatim>\<open>rawdata\<close> after the call.  The attributes \<^verbatim>\<open>self.mappings\<close> and \<^verbatim>\<open>self.url\<close>
  are assigned only when all three loops have finished.
\<close>

definition create_mappings ::
  "gform \<Rightarrow> rawdata \<Rightarrow> bool \<Rightarrow> (pyexc + mappings) \<times> gform \<times> rawdata" where
  "create_mappings self rd exhaustive =
     (case rd_text rd of
        None \<Rightarrow> (Inl (KeyError ''text''), self, rd)
      | Some titems \<Rightarrow>
          (case text_fields exhaustive titems [] of
             (titems', Inl e) \<Rightarrow> (Inl e, self, rd\<lparr>rd_text := Some titems'\<rparr>)
           | (titems', Inr mt) \<Rightarrow>
               (let rd' = rd\<lparr>rd_text := Some titems'\<rparr> in
                case rd_radio rd of
                  None \<Rightarrow> (Inl (KeyError ''radio''), self, rd')
                | Some ritems \<Rightarrow>
                    (case radio_fields ritems [] of
                       Inl e \<Rightarrow> (Inl e, self, rd')
                     | Inr mr \<Rightarrow>
                         (case rd_checkbox rd of
                            None \<Rightarrow> (Inl (KeyError ''checkbox''), self, rd')
                          | Some citems \<Rightarrow>
                              (case checkbox_fields citems [] of
                                 Inl e \<Rightarrow> (Inl e, self, rd')
                               | Inr mc \<Rightarrow>
                                   (let m = \<lparr>m_text = mt, m_radio = mr, m_checkbox = mc,
                                            m_fallbacks = []\<rparr>
                                    in (Inr m,
                                        self\<lparr>g_mappings := Some m, g_url := Some (rd_url rd)\<rparr>,
                                        rd'))))))))"

section \<open>The browser session and the operator\<close>

type_synonym elem = nat

text \<open>
  What \<^verbatim>\<open>fill\<close> does to the outside world, in order: calls of the Selenium driver and of
  the elements it returns, console prompts, clock readings, sleeps and log records.  Every wait
  uses the timeout \<^verbatim>\<open>self.WAIT\<close> and the locator strategy \<^verbatim>\<open>By.XPATH\<close>.
\<close>

datatype event =
    Get string
  | Sleep
  | Input string
  | Time
  | WaitClickable string
  | Click elem
  | Clear elem
  | SendKeys elem string
  | GetAttribute elem string
  | IsSelected elem
  | FindElementById "string option"
  | Quit
  | LogFatal string
  | LogError pyexc
  | LogWarning string

text \<open>
  The session and the operator are outside the program.  Each answer may depend on everything
  that happened before the call (the events so far), so a world fixes one possible behaviour of
  browser, page, operator and clock; a property of every run is a property for every world.
  \<^verbatim>\<open>time.sleep\<close>, \<^verbatim>\<open>time.time\<close>, the logger and \<^verbatim>\<open>driver.quit\<close> are taken not to
  raise.
\<close>

record world =
  driver_get :: "event list \<Rightarrow> string \<Rightarrow> pyexc + unit"
  user_input :: "event list \<Rightarrow> string \<Rightarrow> pyexc + string"
  clock :: "event list \<Rightarrow> real"
  wait_clickable :: "event list \<Rightarrow> string \<Rightarrow> pyexc + elem"
  el_click :: "event list \<Rightarrow> elem \<Rightarrow> pyexc + unit"
  el_clear :: "event list \<Rightarrow> elem \<Rightarrow> pyexc + unit"
  el_send_keys :: "event list \<Rightarrow> elem \<Rightarrow> string \<Rightarrow> pyexc + unit"
  el_get_attribute :: "event list \<Rightarrow> elem \<Rightarrow> string \<Rightarrow> pyexc + string option"
  el_is_selected :: "event list \<Rightarrow> elem \<Rightarrow> pyexc + bool"
  find_element_id :: "event list \<Rightarrow> string option \<Rightarrow> pyexc + elem"

text \<open>
  A statement sequence that may raise: it maps the events so far to its result (an exception or
  a value) and the events after it.
\<close>

type_synonym 'a io = "event list \<Rightarrow> (pyexc + 'a) \<times> event list"

definition io_return :: "'a \<Rightarrow> 'a io" where
  "io_return x tr = (Inr x, tr)"

definition io_raise :: "pyexc \<Rightarrow> 'a io" where
  "io_raise e tr = (Inl e, tr)"

definition io_bind :: "'a io \<Rightarrow> ('a \<Rightarrow> 'b io) \<Rightarrow> 'b io" where
  "io_bind c f tr = (case c tr of (Inl e, tr') \<Rightarrow> (Inl e, tr') | (Inr x, tr') \<Rightarrow> f x tr')"

text \<open>A call into the world: the answer is the world's, given the events before the call.\<close>

definition io_call :: "event \<Rightarrow> (event list \<Rightarrow> pyexc + 'a) \<Rightarrow> 'a io" where
  "io_call ev answer tr = (answer tr, tr @ [ev])"

definition io_emit :: "event \<Rightarrow> unit io" where
  "io_emit ev tr = (Inr (), tr @ [ev])"

fun for_each :: "('a \<Rightarrow> unit io) \<Rightarrow> 'a list \<Rightarrow> unit io" where
  "for_each body [] tr = (Inr (), tr)"
| "for_each body (x # xs) tr =
     (case body x tr of (Inl e, tr') \<Rightarrow> (Inl e, tr') | (Inr u, tr') \<Rightarrow> for_each body xs tr')"

section \<open>\<^verbatim>\<open>GForm.fill\<close>\<close>

subsection \<open>The statements before the \<^verbatim>\<open>try\<close> block\<close>

definition truthy :: "string option \<Rightarrow> bool" where
  "truthy u = (u \<noteq> None \<and> u \<noteq> Some [])"

text \<open>
  \<^verbatim>\<open>re.match(r'^https://.*$', s)\<close>: the dot matches every character but the newline, and
  \<^verbatim>\<open>$\<close> matches at the end of the string and before a newline that ends the string.
\<close>

definition re_match_https :: "string \<Rightarrow> bool" where
  "re_match_https s =
     (take 8 s = ''https://'' \<and>
      (let rest = drop 8 s in
         CHR 0x0A \<notin> set rest
         \<or> (rest \<noteq> [] \<and> last rest = CHR 0x0A \<and> CHR 0x0A \<notin> set (butlast rest))))"

text \<open>
  Lines 191 to 193: \<^verbatim>\<open>self.url = url if url else self.url\<close> and the two assertions, whose
  messages are calls of \<^verbatim>\<open>logger.fatal\<close>, run only when the assertion fails.  The result
  is the exception raised or the validated URL, with the object and the log records.
\<close>

definition check_url :: "gform \<Rightarrow> string option \<Rightarrow> (pyexc + string) \<times> gform \<times> event list" where
  "check_url self url =
     (case (if truthy url then Inr url
            else (case g_url self of
                    None \<Rightarrow> Inl (AttributeError ''url'')
                  | Some u \<Rightarrow> Inr u)) of
        Inl e \<Rightarrow> (Inl e, self, [])
      | Inr u \<Rightarrow>
          (let self' = self\<lparr>g_url := Some u\<rparr> in
           case u of
             None \<Rightarrow> (Inl AssertionError, self', [LogFatal ''URL not provided''])
           | Some s \<Rightarrow>
               if s = [] then (Inl AssertionError, self', [LogFatal ''URL not provided''])
               else if \<not> re_match_https s
               then (Inl AssertionError, self', [LogFatal ''Invalid URL''])
               else (Inr s, self', [])))"

subsection \<open>The \<^verbatim>\<open>try\<close> block\<close>

definition start_prompt :: string where
  "start_prompt = ''Press <Enter> to start filling or q to quit >> ''"

definition review_prompt :: string where
  "review_prompt = ''Review the form and press <Enter> to submit or 'q' to cancel''"

definition close_prompt :: string where
  "close_prompt = ''Press <Enter> to close the browser''"

definition clear_xpath :: string where
  \<open>clear_xpath = ''//span[text()="Clear form"]''\<close>

definition submit_xpath :: string where
  \<open>submit_xpath = ''//span[text()="Submit"]''\<close>

text \<open>
  Lines 197 to 213: navigation, the settle delay or the first prompt, the reading of \<open>start\<close>
  and the clearing of the form.  The value is \<open>None\<close> when the operator quits (the
  \<^verbatim>\<open>return t\<close> of line 203) and the start time otherwise.
\<close>

definition fill_start :: "world \<Rightarrow> string \<Rightarrow> bool \<Rightarrow> bool \<Rightarrow> real option io" where
  "fill_start w u interactive clear =
     io_bind (io_call (Get u) (\<lambda>h. driver_get w h u)) (\<lambda>_.
     io_bind (if \<not> interactive then io_emit Sleep else io_return ()) (\<lambda>_.
     io_bind (if interactive
              then io_bind (io_call (Input start_prompt) (\<lambda>h. user_input w h start_prompt))
                     (\<lambda>s. io_return (s = ''q''))
              else io_return False) (\<lambda>cancel.
     if cancel then io_return None
     else
       io_bind (io_call Time (\<lambda>h. Inr (clock w h))) (\<lambda>start.
       io_bind (if clear
                then io_bind (io_call (WaitClickable clear_xpath)
                                (\<lambda>h. wait_clickable w h clear_xpath))
                       (\<lambda>clear_button. io_call (Click clear_button)
                                          (\<lambda>h. el_click w h clear_button))
                else io_return ()) (\<lambda>_.
       io_return (Some start))))))"

text \<open>
  The handler of the three field loops: an exception that derives from \<^verbatim>\<open>Exception\<close> is
  logged as a warning and the loop continues; any other exception leaves the loop.
\<close>

definition try_field :: "string \<Rightarrow> unit io \<Rightarrow> unit io" where
  "try_field input_locator body tr =
     (case body tr of
        (Inl e, tr') \<Rightarrow>
          if is_Exception e then (Inr (), tr' @ [LogWarning input_locator]) else (Inl e, tr')
      | (Inr u, tr') \<Rightarrow> (Inr (), tr'))"

text \<open>
  Lines 216 to 228.  When the value read back differs, the message of the assertion reads the
  attribute a second time before \<^verbatim>\<open>AssertionError\<close> is raised.
\<close>

definition fill_text :: "world \<Rightarrow> string \<times> string \<Rightarrow> unit io" where
  "fill_text w = (\<lambda>(input_locator, val).
     try_field input_locator
       (io_bind (io_call (WaitClickable input_locator) (\<lambda>h. wait_clickable w h input_locator))
          (\<lambda>input_field.
        io_bind (io_call (Clear input_field) (\<lambda>h. el_clear w h input_field)) (\<lambda>_.
        io_bind (io_call (SendKeys input_field val) (\<lambda>h. el_send_keys w h input_field val)) (\<lambda>_.
        io_bind (io_call (GetAttribute input_field ''value'')
                   (\<lambda>h. el_get_attribute w h input_field ''value'')) (\<lambda>v.
        if v = Some val then io_return ()
        else io_bind (io_call (GetAttribute input_field ''value'')
                        (\<lambda>h. el_get_attribute w h input_field ''value''))
               (\<lambda>_. io_raise AssertionError)))))))"

text \<open>Lines 231 to 241.\<close>

definition fill_radio :: "world \<Rightarrow> string \<Rightarrow> unit io" where
  "fill_radio w input_locator =
     try_field input_locator
       (io_bind (io_call (WaitClickable input_locator) (\<lambda>h. wait_clickable w h input_locator))
          (\<lambda>input_field.
        io_bind (io_call (IsSelected input_field) (\<lambda>h. el_is_selected w h input_field))
          (\<lambda>selected.
        if \<not> selected then io_call (Click input_field) (\<lambda>h. el_click w h input_field)
        else io_return ())))"

text \<open>Lines 244 to 257.\<close>

definition fill_checkbox :: "world \<Rightarrow> string \<Rightarrow> unit io" where
  "fill_checkbox w input_locator =
     try_field input_locator
       (io_bind (io_call (WaitClickable input_locator) (\<lambda>h. wait_clickable w h input_locator))
          (\<lambda>input_field.
        io_bind (io_call (GetAttribute input_field ''for'')
                   (\<lambda>h. el_get_attribute w h input_field ''for'')) (\<lambda>fr.
        io_bind (io_call (FindElementById fr) (\<lambda>h. find_element_id w h fr)) (\<lambda>box.
        io_bind (io_call (GetAttribute box ''aria-checked'')
                   (\<lambda>h. el_get_attribute w h box ''aria-checked'')) (\<lambda>aria_checked.
        if aria_checked = Some ''false''
        then io_call (Click input_field) (\<lambda>h. el_click w h input_field)
        else io_return ())))))"

text \<open>
  The three loops.  \<^verbatim>\<open>self.mappings\<close> is read where the first loop starts; the attribute
  is missing when \<^verbatim>\<open>create_mappings\<close> has never returned.
\<close>

definition fill_fields :: "world \<Rightarrow> gform \<Rightarrow> unit io" where
  "fill_fields w self =
     (case g_mappings self of
        None \<Rightarrow> io_raise (AttributeError ''mappings'')
      | Some m \<Rightarrow>
          io_bind (for_each (fill_text w) (m_text m)) (\<lambda>_.
          io_bind (for_each (fill_radio w) (m_radio m)) (\<lambda>_.
          for_each (fill_checkbox w) (m_checkbox m))))"

text \<open>Lines 262 to 271; \<open>cancel\<close> is \<open>False\<close> when these lines are reached.\<close>

definition fill_submit :: "world \<Rightarrow> bool \<Rightarrow> bool \<Rightarrow> bool \<Rightarrow> unit io" where
  "fill_submit w submit interactive review_before_submit =
     (if submit
      then io_bind (if review_before_submit \<and> interactive
                    then io_bind (io_call (Input review_prompt)
                                    (\<lambda>h. user_input w h review_prompt))
                           (\<lambda>s. io_return (s = ''q''))
                    else io_return False) (\<lambda>cancel.
           if \<not> cancel
           then io_bind (io_call (WaitClickable submit_xpath)
                           (\<lambda>h. wait_clickable w h submit_xpath))
                  (\<lambda>submit_button. io_call (Click submit_button)
                                      (\<lambda>h. el_click w h submit_button))
           else io_return ())
      else io_return ())"

text \<open>
  Lines 205 to 272, from the reading of \<open>start\<close> to the assignment of \<open>t\<close>: the value is
  \<open>None\<close> after the early \<^verbatim>\<open>return t\<close> and the new \<open>t\<close> otherwise.
\<close>

definition fill_main ::
  "world \<Rightarrow> gform \<Rightarrow> string \<Rightarrow> bool \<Rightarrow> bool \<Rightarrow> bool \<Rightarrow> bool \<Rightarrow> real option io" where
  "fill_main w self u submit interactive review_before_submit clear =
     io_bind (fill_start w u interactive clear) (\<lambda>started.
     case started of
       None \<Rightarrow> io_return None
     | Some start \<Rightarrow>
         io_bind (fill_fields w self) (\<lambda>_.
         io_bind (fill_submit w submit interactive review_before_submit) (\<lambda>_.
         io_bind (io_call Time (\<lambda>h. Inr (clock w h))) (\<lambda>now.
         io_return (Some (now - start))))))"

text \<open>
  The \<^verbatim>\<open>except Exception\<close> clause logs the error; the \<^verbatim>\<open>finally\<close> clause quits the
  driver and returns \<open>t\<close>, which also discards an exception that the \<^verbatim>\<open>except\<close> clause did
  not catch.
\<close>

definition fill_handler :: "pyexc \<Rightarrow> real \<Rightarrow> event list \<Rightarrow> real \<times> event list" where
  "fill_handler e t tr = (t, tr @ (if is_Exception e then [LogError e] else []) @ [Quit])"

definition fill_try ::
  "world \<Rightarrow> gform \<Rightarrow> string \<Rightarrow> bool \<Rightarrow> bool \<Rightarrow> bool \<Rightarrow> bool \<Rightarrow> event list
    \<Rightarrow> real \<times> event list" where
  "fill_try w self u submit interactive review_before_submit clear tr =
     (case fill_main w self u submit interactive review_before_submit clear tr of
        (Inl e, tr1) \<Rightarrow> fill_handler e (- 1) tr1
      | (Inr None, tr1) \<Rightarrow> (- 1, tr1 @ [Quit])
      | (Inr (Some t), tr1) \<Rightarrow>
          (if interactive
           then (case io_call (Input close_prompt) (\<lambda>h. user_input w h close_prompt) tr1 of
                   (Inl e, tr2) \<Rightarrow> fill_handler e t tr2
                 | (Inr s, tr2) \<Rightarrow> (t, tr2 @ [Quit]))
           else (t, tr1 @ [Quit])))"

text \<open>
  The method: the exception that leaves it or the number it returns, the object after the call
  and the events of the call.
\<close>

definition fill ::
  "world \<Rightarrow> gform \<Rightarrow> string option \<Rightarrow> bool \<Rightarrow> bool \<Rightarrow> bool \<Rightarrow> bool
    \<Rightarrow> (pyexc + real) \<times> gform \<times> event list" where
  "fill w self url submit interactive review_before_submit clear =
     (case check_url self url of
        (Inl e, self', logged) \<Rightarrow> (Inl e, self', logged)
      | (Inr u, self', logged) \<Rightarrow>
          (case fill_try w self' u submit interactive review_before_submit clear logged of
             (t, tr) \<Rightarrow> (Inr t, self', tr)))"

text \<open>The locators that a run has waited for, in order.\<close>

fun waited :: "event list \<Rightarrow> string list" where
  "waited [] = []"
| "waited (WaitClickable input_locator # es) = input_locator # waited es"
| "waited (e # es) = waited es"

section \<open>Notions used to state the properties\<close>

text \<open>The object as \<^verbatim>\<open>__init__\<close> leaves it: neither attribute exists.\<close>

definition new_gform :: gform where
  "new_gform = \<lparr>g_mappings = None, g_url = None\<rparr>"

definition category_items :: "'a list option \<Rightarrow> 'a list" where
  "category_items c = (case c of None \<Rightarrow> [] | Some xs \<Rightarrow> xs)"

text \<open>
  A field declaration lacks a key that the compiler reads: a text field with \<^verbatim>\<open>'types'\<close>
  but without \<^verbatim>\<open>'response'\<close>, a radio field without \<^verbatim>\<open>'choice'\<close>, a checkbox field
  without \<^verbatim>\<open>'choices'\<close>.
\<close>

definition spec_missing_required_key :: "rawdata \<Rightarrow> bool" where
  "spec_missing_required_key rd =
     (list_ex (\<lambda>(q, m). types m \<noteq> None \<and> response m = None) (category_items (rd_text rd))
      \<or> list_ex (\<lambda>(q, m). choice m = None) (category_items (rd_radio rd))
      \<or> list_ex (\<lambda>(q, m). choices m = None) (category_items (rd_checkbox rd)))"

text \<open>A text field's dictionary with the key \<^verbatim>\<open>'textarea'\<close> defaulted to the switch.\<close>

definition with_default :: "bool \<Rightarrow> text_meta \<Rightarrow> text_meta" where
  "with_default ex m = (if textarea m = None then m\<lparr>textarea := Some ex\<rparr> else m)"

text \<open>
  The effective textarea flag of a text field, its input-type locator, its union locator and
  the entry the field is expected to compile to.
\<close>

definition effective_textarea :: "bool \<Rightarrow> text_meta \<Rightarrow> bool" where
  "effective_textarea ex m = (case textarea m of None \<Rightarrow> ex | Some b \<Rightarrow> b)"

definition input_key :: "string \<times> text_meta \<Rightarrow> string" where
  "input_key = (\<lambda>(q, m). input_xpath q (the (types m)))"

definition union_key :: "string \<times> text_meta \<Rightarrow> string" where
  "union_key = (\<lambda>(q, m). union_xpath (input_xpath q (the (types m))) q)"

definition compiled_entry :: "bool \<Rightarrow> string \<times> text_meta \<Rightarrow> string \<times> string" where
  "compiled_entry ex = (\<lambda>(q, m).
     (if effective_textarea ex m then union_key (q, m) else input_key (q, m), the (response m)))"

text \<open>
  Every exception that the page raises while a field is filled derives from
  \<^verbatim>\<open>Exception\<close> (as the timeout of a wait does).
\<close>

definition fails_as_Exception :: "pyexc + 'a \<Rightarrow> bool" where
  "fails_as_Exception r = (case r of Inl e \<Rightarrow> is_Exception e | Inr x \<Rightarrow> True)"

definition page_raises_Exceptions :: "world \<Rightarrow> bool" where
  "page_raises_Exceptions w =
     ((\<forall>h l. fails_as_Exception (wait_clickable w h l))
      \<and> (\<forall>h el. fails_as_Exception (el_click w h el))
      \<and> (\<forall>h el. fails_as_Exception (el_clear w h el))
      \<and> (\<forall>h el v. fails_as_Exception (el_send_keys w h el v))
      \<and> (\<forall>h el a. fails_as_Exception (el_get_attribute w h el a))
      \<and> (\<forall>h el. fails_as_Exception (el_is_selected w h el))
      \<and> (\<forall>h i. fails_as_Exception (find_element_id w h i)))"

text \<open>The operator never answers \<^verbatim>\<open>q\<close> at the review prompt, and the prompt returns.\<close>

definition proceeds_at_review :: "world \<Rightarrow> bool" where
  "proceeds_at_review w =
     (\<forall>h. case user_input w h review_prompt of Inl e \<Rightarrow> False | Inr s \<Rightarrow> s \<noteq> ''q'')"

text \<open>
  The URL that line 191 selects: the argument if it is given, the attribute otherwise
  (\<open>None\<close> also when the attribute does not exist).
\<close>

definition selected_url :: "gform \<Rightarrow> string option \<Rightarrow> string option" where
  "selected_url self url =
     (if truthy url then url else (case g_url self of None \<Rightarrow> None | Some u \<Rightarrow> u))"

text \<open>
  The target URL is absent or does not use the secure scheme: the selected URL is
  \<^verbatim>\<open>None\<close>, empty or does not start with \<^verbatim>\<open>https://\<close>.
\<close>

definition spec_url_absent_or_insecure :: "gform \<Rightarrow> string option \<Rightarrow> bool" where
  "spec_url_absent_or_insecure self url =
     (case selected_url self url of
        None \<Rightarrow> True
      | Some s \<Rightarrow> s = [] \<or> take 8 s \<noteq> ''https://'')"

text \<open>A statement sequence only appends events, and never the quitting of the driver.\<close>

definition quit_free :: "'a io \<Rightarrow> bool" where
  "quit_free c = (\<forall>tr. \<exists>evs. snd (c tr) = tr @ evs \<and> Quit \<notin> set evs)"

text \<open>
  A sample world: navigation succeeds, the operator answers each prompt as \<open>answers\<close> says,
  the clock counts the events, waiting for a locator in \<open>missing\<close> times out and every other
  wait finds element 0, a text control shows what was typed last, and every checkbox is
  unchecked.
\<close>

definition sample_world :: "string list \<Rightarrow> (string \<Rightarrow> string) \<Rightarrow> world" where
  "sample_world missing answers =
     \<lparr>driver_get = (\<lambda>h u. Inr ()),
      user_input = (\<lambda>h p. Inr (answers p)),
      clock = (\<lambda>h. real (length h)),
      wait_clickable = (\<lambda>h l. if l \<in> set missing then Inl TimeoutException else Inr 0),
      el_click = (\<lambda>h el. Inr ()),
      el_clear = (\<lambda>h el. Inr ()),
      el_send_keys = (\<lambda>h el v. Inr ()),
      el_get_attribute = (\<lambda>h el a.
         Inr (if a = ''value''
              then (case last h of SendKeys el' v \<Rightarrow> Some v | _ \<Rightarrow> None)
              else if a = ''for'' then Some ''i5'' else Some ''false'')),
      el_is_selected = (\<lambda>h el. Inr False),
      find_element_id = (\<lambda>h i. Inr 1)\<rparr>"

text \<open>
  A statement sequence completes without raising, and the locators it waits for are \<open>ls\<close>,
  in this order.
\<close>

definition attempts :: "string list \<Rightarrow> unit io \<Rightarrow> bool" where
  "attempts ls c = (\<forall>tr. \<exists>evs. c tr = (Inr (), tr @ evs) \<and> waited evs = ls)"

text \<open>A sample object after \<^verbatim>\<open>create_mappings\<close>: two text fields, a radio and a checkbox option.\<close>

definition sample_gform :: gform where
  "sample_gform =
     \<lparr>g_mappings = Some \<lparr>m_text = [(input_xpath ''Email'' [''email''], ''a@b.c''),
                                   (input_xpath ''Name'' [''text''], ''Alex'')],
                         m_radio = [label_xpath ''DMSO''],
                         m_checkbox = [label_xpath ''exp-1''],
                         m_fallbacks = []\<rparr>,
      g_url = Some None\<rparr>"

text \<open>The label inside a compiled text locator: what follows the opening up to the next quote.\<close>

definition label_of :: "string \<Rightarrow> string" where
  "label_of s = takeWhile (\<lambda>c. c \<noteq> CHR 0x22) (drop 25 s)"

text \<open>
  A submit attempt after the events \<open>h\<close>: the run waits for the submit control and, when
  the wait finds it, clicks it.
\<close>

definition submit_attempt :: "world \<Rightarrow> event list \<Rightarrow> event list" where
  \<open>submit_attempt w h =
     WaitClickable ''//span[text()="Submit"]''
       # (case wait_clickable w h ''//span[text()="Submit"]'' of
            Inl e \<Rightarrow> []
          | Inr submit_button \<Rightarrow> [Click submit_button])\<close>

text \<open>The review prompt, shown before a submit attempt in interactive mode when asked for.\<close>

definition review_events :: "bool \<Rightarrow> bool \<Rightarrow> event list" where
  "review_events review interactive =
     (if review \<and> interactive
      then [Input ''Review the form and press <Enter> to submit or 'q' to cancel'']
      else [])"

section \<open>Properties of \<^verbatim>\<open>create_mappings\<close>\<close>

text \<open>The locators as the strings that lines 139 and 146 build.\<close>

lemma input_xpath_literal:
  \<open>input_xpath q ts
     = ''//span[contains(text(), "'' @ q @ ''")]/../../../..//input['' @ text_types ts @ '']''\<close>
  by (simp add: input_xpath_def span_contains_def)

lemma union_xpath_literal:
  \<open>union_xpath k q = k @ '' | //span[contains(text(), "'' @ q @ ''")]/../../../..//textarea''\<close>
  by (simp add: union_xpath_def textarea_xpath_def span_contains_def)

lemma text_field_error_KeyError:
  "text_field ex q m mt = (m', Inl e) \<Longrightarrow> \<exists>k. e = KeyError k"
  by (auto simp: text_field_def popitem_def Let_def split: option.splits if_splits sum.splits prod.splits)

lemma text_fields_error_KeyError:
  "text_fields ex items mt = (items', Inl e) \<Longrightarrow> \<exists>k. e = KeyError k"
proof (induction items arbitrary: mt items')
  case Nil
  then show ?case by simp
next
  case (Cons a items)
  obtain q m where a: "a = (q, m)" by (cases a)
  obtain m' r where tf: "text_field ex q m mt = (m', r)" by (cases "text_field ex q m mt")
  show ?case
  proof (cases r)
    case (Inl e')
    with Cons.prems a tf have "e = e'" by simp
    with tf Inl show ?thesis using text_field_error_KeyError by blast
  next
    case (Inr mt')
    obtain rest' r' where rec: "text_fields ex items mt' = (rest', r')"
      by (cases "text_fields ex items mt'")
    with Cons.prems a tf Inr have "r' = Inl e" by simp
    with rec Cons.IH show ?thesis by blast
  qed
qed

lemma text_field_missing_response:
  "types m \<noteq> None \<Longrightarrow> response m = None \<Longrightarrow> \<exists>e. snd (text_field ex q m mt) = Inl e"
  by (auto simp: text_field_def)

lemma text_fields_missing_response:
  "\<exists>(q, m) \<in> set items. types m \<noteq> None \<and> response m = None
    \<Longrightarrow> \<exists>e. snd (text_fields ex items mt) = Inl e"
proof (induction items arbitrary: mt)
  case Nil
  then show ?case by simp
next
  case (Cons a items)
  obtain q m where a: "a = (q, m)" by (cases a)
  obtain m' r where tf: "text_field ex q m mt = (m', r)" by (cases "text_field ex q m mt")
  show ?case
  proof (cases r)
    case (Inl e')
    with a tf show ?thesis by simp
  next
    case (Inr mt')
    have "\<not> (types m \<noteq> None \<and> response m = None)"
    proof
      assume "types m \<noteq> None \<and> response m = None"
      then obtain e where "snd (text_field ex q m mt) = Inl e"
        using text_field_missing_response by blast
      with tf Inr show False by simp
    qed
    with Cons.prems a have "\<exists>(q, m) \<in> set items. types m \<noteq> None \<and> response m = None"
      by auto
    from Cons.IH [OF this, of mt'] obtain e where "snd (text_fields ex items mt') = Inl e" ..
    with a tf Inr show ?thesis by (auto split: prod.splits)
  qed
qed

lemma radio_fields_error_KeyError:
  "radio_fields items mr = Inl e \<Longrightarrow> \<exists>k. e = KeyError k"
  by (induction items mr rule: radio_fields.induct) (auto split: option.splits)

lemma radio_fields_missing_choice:
  "\<exists>(q, m) \<in> set items. choice m = None \<Longrightarrow> \<exists>e. radio_fields items mr = Inl e"
  by (induction items mr rule: radio_fields.induct) (auto split: option.splits)

lemma checkbox_fields_error_KeyError:
  "checkbox_fields items mc = Inl e \<Longrightarrow> \<exists>k. e = KeyError k"
  by (induction items mc rule: checkbox_fields.induct) (auto split: option.splits)

lemma checkbox_fields_missing_choices:
  "\<exists>(q, m) \<in> set items. choices m = None \<Longrightarrow> \<exists>e. checkbox_fields items mc = Inl e"
  by (induction items mc rule: checkbox_fields.induct) (auto split: option.splits)

lemma create_mappings_error_KeyError:
  "fst (create_mappings self rd ex) = Inl e \<Longrightarrow> \<exists>k. e = KeyError k"
  by (auto simp: create_mappings_def Let_def split: option.splits prod.splits sum.splits
      dest: text_fields_error_KeyError radio_fields_error_KeyError checkbox_fields_error_KeyError)

lemma create_mappings_error_self:
  "fst (create_mappings self rd ex) = Inl e \<Longrightarrow> fst (snd (create_mappings self rd ex)) = self"
  by (auto simp: create_mappings_def Let_def split: option.splits prod.splits sum.splits)

lemma create_mappings_missing_required:
  assumes "spec_missing_required_key rd"
  shows "\<exists>e. fst (create_mappings self rd ex) = Inl e"
proof (cases "rd_text rd")
  case None
  then show ?thesis by (simp add: create_mappings_def)
next
  case t: (Some titems)
  obtain titems' rt where tf: "text_fields ex titems [] = (titems', rt)"
    by (cases "text_fields ex titems []")
  show ?thesis
  proof (cases rt)
    case (Inl e)
    with t tf show ?thesis by (simp add: create_mappings_def)
  next
    case mt: (Inr mt)
    have no_text: "\<not> (\<exists>(q, m) \<in> set titems. types m \<noteq> None \<and> response m = None)"
    proof
      assume "\<exists>(q, m) \<in> set titems. types m \<noteq> None \<and> response m = None"
      from text_fields_missing_response [OF this, of ex "[]"] tf mt show False by simp
    qed
    show ?thesis
    proof (cases "rd_radio rd")
      case None
      with t tf mt show ?thesis by (simp add: create_mappings_def)
    next
      case r: (Some ritems)
      show ?thesis
      proof (cases "radio_fields ritems []")
        case (Inl e)
        with t tf mt r show ?thesis by (simp add: create_mappings_def)
      next
        case mr: (Inr mr)
        have no_radio: "\<not> (\<exists>(q, m) \<in> set ritems. choice m = None)"
        proof
          assume "\<exists>(q, m) \<in> set ritems. choice m = None"
          from radio_fields_missing_choice [OF this, of "[]"] mr show False by simp
        qed
        show ?thesis
        proof (cases "rd_checkbox rd")
          case None
          with t tf mt r mr show ?thesis by (simp add: create_mappings_def)
        next
          case c: (Some citems)
          from assms t r c no_text no_radio
          have "\<exists>(q, m) \<in> set citems. choices m = None"
            by (simp add: spec_missing_required_key_def category_items_def list_ex_iff)
          from checkbox_fields_missing_choices [OF this, of "[]"]
          obtain e where "checkbox_fields citems [] = Inl e" ..
          with t tf mt r mr c show ?thesis by (simp add: create_mappings_def)
        qed
      qed
    qed
  qed
qed

text \<open>
  Claim C1, as the code has it.  When a text field that has \<^verbatim>\<open>'types'\<close> lacks
  \<^verbatim>\<open>'response'\<close>, or a radio field lacks \<^verbatim>\<open>'choice'\<close>, or a checkbox field lacks
  \<^verbatim>\<open>'choices'\<close>, \<^verbatim>\<open>create_mappings\<close> raises \<^verbatim>\<open>KeyError\<close> (the code has no
  \<^verbatim>\<open>SchemaError\<close>), returns no mappings and assigns none to the object.
\<close>

theorem C1_missing_key_rejected:
  assumes "spec_missing_required_key rd"
  shows "(\<exists>k. fst (create_mappings self rd ex) = Inl (KeyError k))
         \<and> fst (snd (create_mappings self rd ex)) = self"
proof -
  from create_mappings_missing_required [OF assms]
  obtain e where e: "fst (create_mappings self rd ex) = Inl e" ..
  from create_mappings_error_KeyError [OF e] obtain k where "e = KeyError k" ..
  with e create_mappings_error_self [OF e] show ?thesis by simp
qed

text \<open>The theorem at a text field with type hints and no response.\<close>

theorem C1_missing_key_rejected_witness:
  "spec_missing_required_key
     \<lparr>rd_text = Some [(''Email'', \<lparr>types = Some [''text'', ''email''], response = None,
                                    textarea = None\<rparr>)],
      rd_radio = Some [], rd_checkbox = Some [], rd_url = None\<rparr>
   \<and> (\<exists>k. fst (create_mappings \<lparr>g_mappings = None, g_url = None\<rparr>
          \<lparr>rd_text = Some [(''Email'', \<lparr>types = Some [''text'', ''email''], response = None,
                                         textarea = None\<rparr>)],
           rd_radio = Some [], rd_checkbox = Some [], rd_url = None\<rparr> False) = Inl (KeyError k))
   \<and> fst (snd (create_mappings \<lparr>g_mappings = None, g_url = None\<rparr>
          \<lparr>rd_text = Some [(''Email'', \<lparr>types = Some [''text'', ''email''], response = None,
                                         textarea = None\<rparr>)],
           rd_radio = Some [], rd_checkbox = Some [], rd_url = None\<rparr> False))
       = \<lparr>g_mappings = None, g_url = None\<rparr>"
proof -
  have h: "spec_missing_required_key
     \<lparr>rd_text = Some [(''Email'', \<lparr>types = Some [''text'', ''email''], response = None,
                                    textarea = None\<rparr>)],
      rd_radio = Some [], rd_checkbox = Some [], rd_url = None\<rparr>"
    by (simp add: spec_missing_required_key_def category_items_def)
  from h C1_missing_key_rejected [OF h] show ?thesis by blast
qed

text \<open>
  Claim C1 as stated fails: a text field without a response value that has no \<^verbatim>\<open>'types'\<close>
  either is skipped by the guard of line 135, and the compiler returns mappings without it.
\<close>

theorem C1_counterexample:
  "response (snd (hd [(''Name'', \<lparr>types = None, response = None, textarea = None\<rparr>)])) = None
   \<and> create_mappings \<lparr>g_mappings = None, g_url = None\<rparr>
        \<lparr>rd_text = Some [(''Name'', \<lparr>types = None, response = None, textarea = None\<rparr>)],
         rd_radio = Some [], rd_checkbox = Some [], rd_url = None\<rparr> False
      = (Inr \<lparr>m_text = [], m_radio = [], m_checkbox = [], m_fallbacks = []\<rparr>,
         \<lparr>g_mappings = Some \<lparr>m_text = [], m_radio = [], m_checkbox = [], m_fallbacks = []\<rparr>,
          g_url = Some None\<rparr>,
         \<lparr>rd_text = Some [(''Name'', \<lparr>types = None, response = None, textarea = Some False\<rparr>)],
          rd_radio = Some [], rd_checkbox = Some [], rd_url = None\<rparr>)"
  by (simp add: create_mappings_def text_field_def Let_def)

lemma text_field_meta_cases:
  "fst (text_field ex q m mt) = m \<or> fst (text_field ex q m mt) = with_default ex m"
  by (auto simp: text_field_def with_default_def Let_def split: option.splits sum.splits prod.splits)

lemma text_field_meta_success:
  "text_field ex q m mt = (m', Inr mt') \<Longrightarrow> m' = with_default ex m"
  by (auto simp: text_field_def with_default_def Let_def
      split: option.splits sum.splits prod.splits if_splits)

lemma text_fields_success_items:
  "text_fields ex items mt = (items', Inr mt')
    \<Longrightarrow> items' = map (\<lambda>(q, m). (q, with_default ex m)) items"
proof (induction items arbitrary: mt items')
  case Nil
  then show ?case by simp
next
  case (Cons a items)
  obtain q m where a: "a = (q, m)" by (cases a)
  obtain m1 r where tf: "text_field ex q m mt = (m1, r)" by (cases "text_field ex q m mt")
  from Cons.prems a tf obtain mt1 where r: "r = Inr mt1" by (cases r) auto
  obtain rest' r' where rec: "text_fields ex items mt1 = (rest', r')"
    by (cases "text_fields ex items mt1")
  from Cons.prems a tf r rec have eq: "items' = (q, m1) # rest'" and r': "r' = Inr mt'"
    by simp_all
  from rec r' Cons.IH have "rest' = map (\<lambda>(q, m). (q, with_default ex m)) items" by blast
  moreover from tf r have "m1 = with_default ex m" by (simp add: text_field_meta_success)
  ultimately show ?case using eq a by simp
qed

lemma text_fields_frame:
  "list_all2 (\<lambda>(q, m) (q', m'). q' = q \<and> (m' = m \<or> m' = with_default ex m))
     items (fst (text_fields ex items mt))"
proof (induction items arbitrary: mt)
  case Nil
  show ?case by simp
next
  case (Cons a items)
  obtain q m where a: "a = (q, m)" by (cases a)
  obtain m1 r where tf: "text_field ex q m mt = (m1, r)" by (cases "text_field ex q m mt")
  have m1: "m1 = m \<or> m1 = with_default ex m"
    using text_field_meta_cases [of ex q m mt] tf by simp
  have refl: "list_all2 (\<lambda>(q, m) (q', m'). q' = q \<and> (m' = m \<or> m' = with_default ex m))
     items items"
    by (rule list_all2_refl) auto
  show ?case
  proof (cases r)
    case (Inl e)
    with a tf m1 refl show ?thesis by simp
  next
    case (Inr mt1)
    obtain rest' r' where rec: "text_fields ex items mt1 = (rest', r')"
      by (cases "text_fields ex items mt1")
    with Cons.IH [of mt1] have "list_all2
       (\<lambda>(q, m) (q', m'). q' = q \<and> (m' = m \<or> m' = with_default ex m)) items rest'"
      by simp
    with a tf m1 Inr rec show ?thesis by simp
  qed
qed

lemma text_field_again:
  "text_field ex q m mt = (m', r) \<Longrightarrow> text_field ex q m' mt = (m', r)"
  by (auto simp: text_field_def Let_def split: option.splits sum.splits prod.splits if_splits)

lemma text_fields_again:
  "text_fields ex items mt = (items', r) \<Longrightarrow> text_fields ex items' mt = (items', r)"
proof (induction items arbitrary: mt items' r)
  case Nil
  then show ?case by simp
next
  case (Cons a items)
  obtain q m where a: "a = (q, m)" by (cases a)
  obtain m1 r1 where tf: "text_field ex q m mt = (m1, r1)" by (cases "text_field ex q m mt")
  note again = text_field_again [OF tf]
  show ?case
  proof (cases r1)
    case (Inl e)
    with Cons.prems a tf again show ?thesis by auto
  next
    case (Inr mt1)
    obtain rest' r' where rec: "text_fields ex items mt1 = (rest', r')"
      by (cases "text_fields ex items mt1")
    from Cons.IH [OF rec] have "text_fields ex rest' mt1 = (rest', r')" .
    with Cons.prems a tf again Inr rec show ?thesis by auto
  qed
qed



text \<open>
  Claim C4, as the code has it.  \<^verbatim>\<open>create_mappings\<close> changes the caller's schema in one
  way only: a text field without the key \<^verbatim>\<open>'textarea'\<close> may receive it, set to the
  exhaustive switch (lines 141 and 142).  Labels, the other keys of text fields, the radio and
  checkbox fields and the URL are unchanged; when mappings are returned, every text field
  without the key has received it.
\<close>

theorem C4_schema_change_confined:
  "rd_radio (snd (snd (create_mappings self rd ex))) = rd_radio rd
   \<and> rd_checkbox (snd (snd (create_mappings self rd ex))) = rd_checkbox rd
   \<and> rd_url (snd (snd (create_mappings self rd ex))) = rd_url rd
   \<and> rel_option
        (list_all2 (\<lambda>(q, m) (q', m'). q' = q \<and> (m' = m \<or> m' = with_default ex m)))
        (rd_text rd) (rd_text (snd (snd (create_mappings self rd ex))))
   \<and> (\<forall>mp. fst (create_mappings self rd ex) = Inr mp \<longrightarrow>
         snd (snd (create_mappings self rd ex))
           = rd\<lparr>rd_text := map_option (map (\<lambda>(q, m). (q, with_default ex m))) (rd_text rd)\<rparr>)"
proof (cases "rd_text rd")
  case None
  then show ?thesis by (simp add: create_mappings_def)
next
  case (Some titems)
  obtain titems' rt where tf: "text_fields ex titems [] = (titems', rt)"
    by (cases "text_fields ex titems []")
  have frame: "list_all2 (\<lambda>(q, m) (q', m'). q' = q \<and> (m' = m \<or> m' = with_default ex m))
      titems titems'"
    using text_fields_frame [of ex titems "[]"] tf by simp
  have rd': "snd (snd (create_mappings self rd ex)) = rd\<lparr>rd_text := Some titems'\<rparr>"
    using Some tf
    by (simp add: create_mappings_def Let_def split: sum.splits option.splits)
  have succ: "titems' = map (\<lambda>(q, m). (q, with_default ex m)) titems"
    if "fst (create_mappings self rd ex) = Inr mp" for mp
  proof -
    from that Some tf obtain mt where "rt = Inr mt"
      by (cases rt) (simp_all add: create_mappings_def)
    with tf show ?thesis using text_fields_success_items by blast
  qed
  show ?thesis using Some frame succ by (simp add: rd')
qed

text \<open>Claim C4 as stated fails: the schema after the call differs from the schema passed in.\<close>

theorem C4_counterexample:
  "snd (snd (create_mappings \<lparr>g_mappings = None, g_url = None\<rparr>
      \<lparr>rd_text = Some [(''Name'', \<lparr>types = Some [''text''], response = Some ''Alex'',
                                   textarea = None\<rparr>)],
       rd_radio = Some [], rd_checkbox = Some [], rd_url = None\<rparr> False))
   \<noteq> \<lparr>rd_text = Some [(''Name'', \<lparr>types = Some [''text''], response = Some ''Alex'',
                                   textarea = None\<rparr>)],
       rd_radio = Some [], rd_checkbox = Some [], rd_url = None\<rparr>"
  by (simp add: create_mappings_def text_field_def Let_def popitem_def)

text \<open>The theorem at a schema that compiles: the field has received the default.\<close>

theorem C4_schema_change_confined_witness:
  "fst (create_mappings \<lparr>g_mappings = None, g_url = None\<rparr>
      \<lparr>rd_text = Some [(''Name'', \<lparr>types = Some [''text''], response = Some ''Alex'',
                                   textarea = None\<rparr>)],
       rd_radio = Some [], rd_checkbox = Some [], rd_url = None\<rparr> True)
    = Inr \<lparr>m_text = [(union_xpath (input_xpath ''Name'' [''text'']) ''Name'', ''Alex'')],
           m_radio = [], m_checkbox = [], m_fallbacks = []\<rparr>
   \<and> snd (snd (create_mappings \<lparr>g_mappings = None, g_url = None\<rparr>
      \<lparr>rd_text = Some [(''Name'', \<lparr>types = Some [''text''], response = Some ''Alex'',
                                   textarea = None\<rparr>)],
       rd_radio = Some [], rd_checkbox = Some [], rd_url = None\<rparr> True))
    = \<lparr>rd_text = Some [(''Name'', \<lparr>types = Some [''text''], response = Some ''Alex'',
                                   textarea = Some True\<rparr>)],
       rd_radio = Some [], rd_checkbox = Some [], rd_url = None\<rparr>"
proof -
  have r: "fst (create_mappings \<lparr>g_mappings = None, g_url = None\<rparr>
      \<lparr>rd_text = Some [(''Name'', \<lparr>types = Some [''text''], response = Some ''Alex'',
                                   textarea = None\<rparr>)],
       rd_radio = Some [], rd_checkbox = Some [], rd_url = None\<rparr> True)
    = Inr \<lparr>m_text = [(union_xpath (input_xpath ''Name'' [''text'']) ''Name'', ''Alex'')],
           m_radio = [], m_checkbox = [], m_fallbacks = []\<rparr>"
    by (simp add: create_mappings_def text_field_def Let_def popitem_def)
  from r C4_schema_change_confined [of "\<lparr>g_mappings = None, g_url = None\<rparr>"
      "\<lparr>rd_text = Some [(''Name'', \<lparr>types = Some [''text''], response = Some ''Alex'',
                                   textarea = None\<rparr>)],
       rd_radio = Some [], rd_checkbox = Some [], rd_url = None\<rparr>" True]
  show ?thesis by (simp add: with_default_def)
qed

text \<open>
  Claim C9.  Compiling a schema a second time with the same switch, on the object and the
  schema as the first call left them, gives the result of the first call (the same mappings or
  the same exception); the result does not depend on the state of the object either.
\<close>

theorem C9_recompilation_same_result:
  "fst (create_mappings (fst (snd (create_mappings self rd ex)))
          (snd (snd (create_mappings self rd ex))) ex)
     = fst (create_mappings self rd ex)
   \<and> fst (create_mappings other rd ex) = fst (create_mappings self rd ex)"
proof (cases "rd_text rd")
  case None
  then show ?thesis by (simp add: create_mappings_def)
next
  case (Some titems)
  obtain titems' rt where tf: "text_fields ex titems [] = (titems', rt)"
    by (cases "text_fields ex titems []")
  note again = text_fields_again [OF tf]
  have indep: "fst (create_mappings s rd ex) = fst (create_mappings self rd ex)" for s
    using Some tf
    by (simp add: create_mappings_def Let_def split: sum.splits option.splits)
  have rd': "snd (snd (create_mappings self rd ex)) = rd\<lparr>rd_text := Some titems'\<rparr>"
    using Some tf
    by (simp add: create_mappings_def Let_def split: sum.splits option.splits)
  have "fst (create_mappings s (rd\<lparr>rd_text := Some titems'\<rparr>) ex)
          = fst (create_mappings self rd ex)" for s
    using Some tf again
    by (simp add: create_mappings_def Let_def split: sum.splits option.splits)
  with indep rd' show ?thesis by simp
qed



lemma dict_set_fresh: "k \<notin> fst ` set d \<Longrightarrow> dict_set d k v = d @ [(k, v)]"
  by (induction d) auto

lemma last_input_xpath: "last (input_xpath q ts) = CHR '']''"
  by (simp add: input_xpath_def)

lemma last_union_xpath: "last (union_xpath k q) = CHR ''a''"
  by (simp add: union_xpath_def textarea_xpath_def)

lemma input_neq_union: "input_xpath q ts \<noteq> union_xpath k q'"
proof
  assume "input_xpath q ts = union_xpath k q'"
  then have "last (input_xpath q ts) = last (union_xpath k q')" by simp
  then show False by (simp add: last_input_xpath last_union_xpath)
qed

lemma input_key_neq_union_key: "input_key a \<noteq> union_key b"
  by (cases a; cases b) (simp add: input_key_def union_key_def input_neq_union)

lemma text_field_fresh:
  assumes "types m = Some ts" and "response m = Some r"
    and "input_key (q, m) \<notin> fst ` set mt" and "union_key (q, m) \<notin> fst ` set mt"
  shows "snd (text_field ex q m mt) = Inr (mt @ [compiled_entry ex (q, m)])"
  using assms
  by (auto simp: text_field_def Let_def popitem_def dict_set_fresh compiled_entry_def
      effective_textarea_def input_key_def union_key_def)

lemma text_fields_fresh:
  assumes "\<forall>(q, m) \<in> set items. types m \<noteq> None \<and> response m \<noteq> None"
    and "distinct (map input_key items)" and "distinct (map union_key items)"
    and "fst ` set mt \<inter> (input_key ` set items \<union> union_key ` set items) = {}"
  shows "snd (text_fields ex items mt) = Inr (mt @ map (compiled_entry ex) items)"
  using assms
proof (induction items arbitrary: mt)
  case Nil
  then show ?case by simp
next
  case (Cons a items)
  obtain q m where a: "a = (q, m)" by (cases a)
  from Cons.prems(1) a obtain ts r where ts: "types m = Some ts" and r: "response m = Some r"
    by auto
  from Cons.prems(4) a have fresh: "input_key (q, m) \<notin> fst ` set mt"
      "union_key (q, m) \<notin> fst ` set mt"
    by auto
  let ?mt' = "mt @ [compiled_entry ex (q, m)]"
  have step: "snd (text_field ex q m mt) = Inr ?mt'"
    by (rule text_field_fresh [OF ts r fresh])
  have key: "fst (compiled_entry ex (q, m)) = input_key (q, m)
      \<or> fst (compiled_entry ex (q, m)) = union_key (q, m)"
    by (simp add: compiled_entry_def)
  have notin: "fst (compiled_entry ex (q, m)) \<notin> input_key ` set items \<union> union_key ` set items"
    using key Cons.prems(2,3) a input_key_neq_union_key [of "(q, m)"]
      input_key_neq_union_key [of _ "(q, m)"]
    by (auto simp: image_iff) metis+
  have p1: "\<forall>(q, m) \<in> set items. types m \<noteq> None \<and> response m \<noteq> None"
    using Cons.prems(1) by simp
  have p2: "distinct (map input_key items)" "distinct (map union_key items)"
    using Cons.prems(2,3) by simp_all
  have p4: "fst ` set ?mt' \<inter> (input_key ` set items \<union> union_key ` set items) = {}"
    using Cons.prems(4) notin by auto
  from Cons.IH [OF p1 p2 p4]
  have "snd (text_fields ex items ?mt') = Inr (?mt' @ map (compiled_entry ex) items)" .
  with step a show ?case
    by (cases "text_field ex q m mt") (auto split: prod.splits)
qed

lemma label_of_span:
  "CHR 0x22 \<notin> set q \<Longrightarrow> label_of (span_contains q @ rest) = q"
  by (simp add: label_of_def span_contains_def takeWhile_append)

lemma label_of_input_key:
  "CHR 0x22 \<notin> set q \<Longrightarrow> label_of (input_key (q, m)) = q"
  using label_of_span [of q] by (simp add: input_key_def input_xpath_def)

lemma label_of_union_key:
  "CHR 0x22 \<notin> set q \<Longrightarrow> label_of (union_key (q, m)) = q"
  using label_of_span [of q] by (simp add: union_key_def union_xpath_def input_xpath_def)

text \<open>
  The two distinctness conditions of the next theorem hold whenever the labels of the text
  fields are distinct (as the keys of a dictionary are) and contain no double quote.
\<close>

lemma quote_free_labels_distinct_keys:
  assumes "distinct (map fst items)" and "\<forall>(q, m) \<in> set items. CHR 0x22 \<notin> set q"
  shows "distinct (map input_key items)" and "distinct (map union_key items)"
proof -
  have i: "map label_of (map input_key items) = map fst items"
    using assms(2) by (auto simp: label_of_input_key)
  have u: "map label_of (map union_key items) = map fst items"
    using assms(2) by (auto simp: label_of_union_key)
  from assms(1) have "distinct (map label_of (map input_key items))" by (simp only: i)
  then show "distinct (map input_key items)"
    by (rule distinct_map [THEN iffD1, THEN conjunct1])
  from assms(1) have "distinct (map label_of (map union_key items))" by (simp only: u)
  then show "distinct (map union_key items)"
    by (rule distinct_map [THEN iffD1, THEN conjunct1])
qed

text \<open>
  Without them an entry can be lost: here two fields with different labels compile to the same
  input-type locator, so the second insertion overwrites the first entry and the mapping has
  one entry for two fields.
\<close>

lemma create_mappings_locator_collision:
  \<open>''A'' \<noteq> ''A")]/../../../..//input[@type="x''
   \<and> fst (create_mappings \<lparr>g_mappings = None, g_url = None\<rparr>
      \<lparr>rd_text = Some [(''A'', \<lparr>types = Some [''x")]/../../../..//input[@type="y''],
                                response = Some ''first'', textarea = Some False\<rparr>),
                        (''A")]/../../../..//input[@type="x'',
                         \<lparr>types = Some [''y''], response = Some ''second'', textarea = None\<rparr>)],
       rd_radio = Some [], rd_checkbox = Some [], rd_url = None\<rparr> True)
    = Inr \<lparr>m_text = [(union_xpath (input_xpath ''A")]/../../../..//input[@type="x'' [''y''])
                        ''A")]/../../../..//input[@type="x'', ''second'')],
           m_radio = [], m_checkbox = [], m_fallbacks = []\<rparr>\<close>
proof -
  have same: \<open>input_xpath ''A'' [''x")]/../../../..//input[@type="y'']
      = input_xpath ''A")]/../../../..//input[@type="x'' [''y'']\<close>
    by (simp add: input_xpath_def span_contains_def text_types_def type_test_def)
  show ?thesis
    by (simp add: create_mappings_def text_field_def Let_def popitem_def same)
qed

text \<open>
  When every text field has \<^verbatim>\<open>'types'\<close> and the locators are distinct, a schema that
  compiles yields one text entry per field, in the order of the schema.
\<close>

lemma create_mappings_text_entries:
  assumes "rd_text rd = Some items"
    and "fst (create_mappings self rd ex) = Inr mp"
    and "\<forall>(q, m) \<in> set items. types m \<noteq> None"
    and "distinct (map input_key items)" and "distinct (map union_key items)"
  shows "m_text mp = map (compiled_entry ex) items"
proof -
  obtain items' rt where tf: "text_fields ex items [] = (items', rt)"
    by (cases "text_fields ex items []")
  from assms(1,2) tf obtain mt where rt: "rt = Inr mt"
    by (cases rt) (simp_all add: create_mappings_def)
  have mp: "m_text mp = mt"
    using assms(1,2) tf rt
    by (auto simp: create_mappings_def Let_def split: option.splits sum.splits)
  have resp: "\<not> (\<exists>(q, m) \<in> set items. types m \<noteq> None \<and> response m = None)"
  proof
    assume "\<exists>(q, m) \<in> set items. types m \<noteq> None \<and> response m = None"
    from text_fields_missing_response [OF this, of ex "[]"] tf rt show False by simp
  qed
  with assms(3) have all: "\<forall>(q, m) \<in> set items. types m \<noteq> None \<and> response m \<noteq> None"
    by blast
  have "snd (text_fields ex items []) = Inr ([] @ map (compiled_entry ex) items)"
    by (rule text_fields_fresh [OF all assms(4,5)]) simp
  with tf rt mp show ?thesis by simp
qed

text \<open>
  Claim C6, as the code has it.  Let a schema compile with the exhaustive switch on, let every
  text field have \<^verbatim>\<open>'types'\<close>, and let no two text fields have the same input-type locator
  or the same union locator.  Then the text mapping has one entry per text field, and the
  entry at the position of a field without \<^verbatim>\<open>'textarea'\<close> has the field's response as
  value and as locator the input-type locator for the field's label, then \<^verbatim>\<open> | \<close>, then
  the textarea locator for the same label.
\<close>

theorem C6_exhaustive_union_entries:
  assumes "rd_text rd = Some items"
    and "fst (create_mappings self rd True) = Inr mp"
    and "\<forall>(q, m) \<in> set items. types m \<noteq> None"
    and "distinct (map input_key items)" and "distinct (map union_key items)"
  shows \<open>length (m_text mp) = length items
         \<and> (\<forall>i < length items. textarea (snd (items ! i)) = None \<longrightarrow>
               m_text mp ! i =
                 (''//span[contains(text(), "'' @ fst (items ! i)
                    @ ''")]/../../../..//input['' @ text_types (the (types (snd (items ! i))))
                    @ ''] | //span[contains(text(), "'' @ fst (items ! i)
                    @ ''")]/../../../..//textarea'',
                  the (response (snd (items ! i)))))\<close>
proof -
  have eq: "m_text mp = map (compiled_entry True) items"
    by (rule create_mappings_text_entries [OF assms])
  have \<open>m_text mp ! i =
                 (''//span[contains(text(), "'' @ fst (items ! i)
                    @ ''")]/../../../..//input['' @ text_types (the (types (snd (items ! i))))
                    @ ''] | //span[contains(text(), "'' @ fst (items ! i)
                    @ ''")]/../../../..//textarea'',
                  the (response (snd (items ! i))))\<close>
    if "i < length items" and "textarea (snd (items ! i)) = None" for i
    using that eq
    by (cases "items ! i")
      (simp add: compiled_entry_def effective_textarea_def union_key_def
        union_xpath_literal input_xpath_literal)
  with eq show ?thesis by simp
qed

text \<open>The theorem at a schema of two text fields, the second with an explicit override.\<close>

theorem C6_exhaustive_union_entries_witness:
  \<open>fst (create_mappings \<lparr>g_mappings = None, g_url = None\<rparr>
      \<lparr>rd_text = Some [(''Email'', \<lparr>types = Some [''text'', ''email''], response = Some ''a@b.c'',
                                    textarea = None\<rparr>),
                        (''Name'', \<lparr>types = Some [''text''], response = Some ''Alex'',
                                   textarea = Some False\<rparr>)],
       rd_radio = Some [], rd_checkbox = Some [], rd_url = None\<rparr> True)
    = Inr \<lparr>m_text =
             [(''//span[contains(text(), "Email")]/../../../..//input[@type="text" or @type="email"] | //span[contains(text(), "Email")]/../../../..//textarea'',
               ''a@b.c''),
              (''//span[contains(text(), "Name")]/../../../..//input[@type="text"]'', ''Alex'')],
           m_radio = [], m_checkbox = [], m_fallbacks = []\<rparr>\<close>
proof -
  let ?items = "[(''Email'', \<lparr>types = Some [''text'', ''email''], response = Some ''a@b.c'',
                                    textarea = None\<rparr>),
                        (''Name'', \<lparr>types = Some [''text''], response = Some ''Alex'',
                                   textarea = Some False\<rparr>)]"
  let ?rd = "\<lparr>rd_text = Some ?items, rd_radio = Some [], rd_checkbox = Some [], rd_url = None\<rparr>"
  obtain mp where h2: "fst (create_mappings \<lparr>g_mappings = None, g_url = None\<rparr> ?rd True) = Inr mp"
    and rest: "m_radio mp = []" "m_checkbox mp = []" "m_fallbacks mp = []"
    by (simp add: create_mappings_def text_field_def Let_def popitem_def)
  have h1: "rd_text ?rd = Some ?items" by simp
  have h3: "\<forall>(q, m) \<in> set ?items. types m \<noteq> None" by simp
  have h4: "distinct (map input_key ?items)"
    by (simp add: input_key_def input_xpath_def span_contains_def)
  have h5: "distinct (map union_key ?items)"
    by (simp add: union_key_def union_xpath_def input_xpath_def span_contains_def)
  from C6_exhaustive_union_entries [OF h1 h2 h3 h4 h5]
  have len: "length (m_text mp) = 2"
    and first: \<open>m_text mp ! 0 =
      (''//span[contains(text(), "Email")]/../../../..//input[@type="text" or @type="email"] | //span[contains(text(), "Email")]/../../../..//textarea'',
       ''a@b.c'')\<close>
    by (simp_all add: text_types_def type_test_def)
  have second: \<open>m_text mp ! 1 =
      (''//span[contains(text(), "Name")]/../../../..//input[@type="text"]'', ''Alex'')\<close>
    using h2
    by (auto simp: create_mappings_def text_field_def Let_def popitem_def input_xpath_def
        span_contains_def text_types_def type_test_def union_xpath_def textarea_xpath_def)
  from len have \<open>m_text mp = [m_text mp ! 0, m_text mp ! 1]\<close>
    by (cases "m_text mp"; cases "tl (m_text mp)") auto
  with first second have \<open>m_text mp =
             [(''//span[contains(text(), "Email")]/../../../..//input[@type="text" or @type="email"] | //span[contains(text(), "Email")]/../../../..//textarea'',
               ''a@b.c''),
              (''//span[contains(text(), "Name")]/../../../..//input[@type="text"]'', ''Alex'')]\<close>
    by simp
  with rest have \<open>mp = \<lparr>m_text =
             [(''//span[contains(text(), "Email")]/../../../..//input[@type="text" or @type="email"] | //span[contains(text(), "Email")]/../../../..//textarea'',
               ''a@b.c''),
              (''//span[contains(text(), "Name")]/../../../..//input[@type="text"]'', ''Alex'')],
           m_radio = [], m_checkbox = [], m_fallbacks = []\<rparr>\<close>
    by (cases mp) simp
  with h2 show ?thesis by simp
qed

text \<open>
  Claim C6 as stated fails: with the switch on, a text field without override and without
  \<^verbatim>\<open>'types'\<close> gets no entry; the entry of the field before it is rewritten instead, under
  a locator that ends with the textarea locator for the other field's label.
\<close>

theorem C6_counterexample:
  \<open>textarea \<lparr>types = None, response = Some ''hello'', textarea = None\<rparr> = None
   \<and> fst (create_mappings \<lparr>g_mappings = None, g_url = None\<rparr>
      \<lparr>rd_text = Some [(''Email'', \<lparr>types = Some [''email''], response = Some ''a@b.c'',
                                    textarea = None\<rparr>),
                        (''Bio'', \<lparr>types = None, response = Some ''hello'', textarea = None\<rparr>)],
       rd_radio = Some [], rd_checkbox = Some [], rd_url = None\<rparr> True)
    = Inr \<lparr>m_text =
             [(''//span[contains(text(), "Email")]/../../../..//input[@type="email"] | //span[contains(text(), "Email")]/../../../..//textarea | //span[contains(text(), "Bio")]/../../../..//textarea'',
               ''a@b.c'')],
           m_radio = [], m_checkbox = [], m_fallbacks = []\<rparr>\<close>
  by (simp add: create_mappings_def text_field_def Let_def popitem_def input_xpath_def
      span_contains_def text_types_def type_test_def union_xpath_def textarea_xpath_def)









section \<open>Properties of \<^verbatim>\<open>fill\<close>\<close>

lemma quit_freeI:
  "(\<And>tr. \<exists>evs. snd (c tr) = tr @ evs \<and> Quit \<notin> set evs) \<Longrightarrow> quit_free c"
  by (simp add: quit_free_def)

lemma quit_freeD: "quit_free c \<Longrightarrow> \<exists>evs. snd (c tr) = tr @ evs \<and> Quit \<notin> set evs"
  by (simp add: quit_free_def)

lemma quit_free_return: "quit_free (io_return x)"
  by (simp add: quit_free_def io_return_def)

lemma quit_free_raise: "quit_free (io_raise e)"
  by (simp add: quit_free_def io_raise_def)

lemma quit_free_call: "ev \<noteq> Quit \<Longrightarrow> quit_free (io_call ev answer)"
  by (simp add: quit_free_def io_call_def)

lemma quit_free_emit: "ev \<noteq> Quit \<Longrightarrow> quit_free (io_emit ev)"
  by (simp add: quit_free_def io_emit_def)

lemma quit_free_bind:
  assumes "quit_free c" and "\<And>x. quit_free (f x)"
  shows "quit_free (io_bind c f)"
proof (rule quit_freeI)
  fix tr
  from quit_freeD [OF assms(1), of tr]
  obtain evs where c: "snd (c tr) = tr @ evs" "Quit \<notin> set evs" by blast
  show "\<exists>evs. snd (io_bind c f tr) = tr @ evs \<and> Quit \<notin> set evs"
  proof (cases "c tr")
    case (Pair r tr')
    with c have tr': "tr' = tr @ evs" by simp
    show ?thesis
    proof (cases r)
      case (Inl e)
      with Pair tr' c show ?thesis by (simp add: io_bind_def)
    next
      case (Inr x)
      from quit_freeD [OF assms(2), of x tr']
      obtain evs' where "snd (f x tr') = tr' @ evs'" "Quit \<notin> set evs'" by blast
      with Pair Inr tr' c have "snd (io_bind c f tr) = tr @ (evs @ evs')"
        "Quit \<notin> set (evs @ evs')"
        by (simp_all add: io_bind_def)
      then show ?thesis by blast
    qed
  qed
qed

lemma quit_free_if:
  "quit_free c \<Longrightarrow> quit_free d \<Longrightarrow> quit_free (if b then c else d)"
  by simp

lemma quit_free_try_field:
  assumes "quit_free body"
  shows "quit_free (try_field l body)"
proof (rule quit_freeI)
  fix tr
  from quit_freeD [OF assms, of tr]
  obtain evs where c: "snd (body tr) = tr @ evs" "Quit \<notin> set evs" by blast
  then have "snd (try_field l body tr) = tr @ evs
      \<or> snd (try_field l body tr) = tr @ (evs @ [LogWarning l])"
    by (cases "body tr") (auto simp: try_field_def split: sum.splits)
  moreover have "Quit \<notin> set (evs @ [LogWarning l])" using c by simp
  ultimately show "\<exists>evs. snd (try_field l body tr) = tr @ evs \<and> Quit \<notin> set evs"
    using c(2) by blast
qed

lemma quit_free_for_each:
  assumes "\<And>x. quit_free (body x)"
  shows "quit_free (for_each body xs)"
proof (rule quit_freeI)
  fix tr
  show "\<exists>evs. snd (for_each body xs tr) = tr @ evs \<and> Quit \<notin> set evs"
  proof (induction xs arbitrary: tr)
    case Nil
    show ?case by simp
  next
    case (Cons x xs)
    from quit_freeD [OF assms, of x tr]
    obtain evs where b: "snd (body x tr) = tr @ evs" "Quit \<notin> set evs" by blast
    show ?case
    proof (cases "body x tr")
      case (Pair r tr')
      with b have tr': "tr' = tr @ evs" by simp
      show ?thesis
      proof (cases r)
        case (Inl e)
        with Pair tr' b show ?thesis by simp
      next
        case (Inr u)
        from Cons.IH [of tr'] obtain evs' where
          "snd (for_each body xs tr') = tr' @ evs'" "Quit \<notin> set evs'" by blast
        with Pair Inr tr' b have "snd (for_each body (x # xs) tr) = tr @ (evs @ evs')"
          "Quit \<notin> set (evs @ evs')"
          by simp_all
        then show ?thesis by blast
      qed
    qed
  qed
qed

lemmas quit_free_intros =
  quit_free_return quit_free_raise quit_free_call quit_free_emit quit_free_bind
  quit_free_try_field quit_free_for_each

lemma quit_free_fill_text: "quit_free (fill_text w x)"
  by (cases x) (auto simp: fill_text_def intro!: quit_free_intros)

lemma quit_free_fill_radio: "quit_free (fill_radio w l)"
  by (auto simp: fill_radio_def intro!: quit_free_intros)

lemma quit_free_fill_checkbox: "quit_free (fill_checkbox w l)"
  by (auto simp: fill_checkbox_def intro!: quit_free_intros)

lemma quit_free_fill_fields: "quit_free (fill_fields w self)"
  by (auto simp: fill_fields_def split: option.splits
      intro!: quit_free_intros quit_free_fill_text quit_free_fill_radio quit_free_fill_checkbox)

lemma quit_free_fill_submit: "quit_free (fill_submit w submit interactive review)"
  by (auto simp: fill_submit_def intro!: quit_free_intros)

lemma quit_free_fill_start: "quit_free (fill_start w u interactive clear)"
  by (auto simp: fill_start_def intro!: quit_free_intros)

lemma quit_free_fill_main: "quit_free (fill_main w self u submit interactive review clear)"
  by (auto simp: fill_main_def split: option.splits
      intro!: quit_free_intros quit_free_fill_start quit_free_fill_fields quit_free_fill_submit)

lemma fill_try_quits_once:
  "\<exists>evs. snd (fill_try w self u submit interactive review clear tr) = tr @ evs @ [Quit]
      \<and> Quit \<notin> set evs"
proof -
  let ?main = "fill_main w self u submit interactive review clear"
  from quit_freeD [OF quit_free_fill_main, of w self u submit interactive review clear tr]
  obtain evs where m: "snd (?main tr) = tr @ evs" "Quit \<notin> set evs" by blast
  obtain r tr1 where p: "?main tr = (r, tr1)" by (cases "?main tr")
  with m have tr1: "tr1 = tr @ evs" by simp
  show ?thesis
  proof (cases r)
    case (Inl e)
    with p tr1 have "snd (fill_try w self u submit interactive review clear tr)
        = tr @ (evs @ (if is_Exception e then [LogError e] else [])) @ [Quit]"
      by (simp add: fill_try_def fill_handler_def)
    moreover have "Quit \<notin> set (evs @ (if is_Exception e then [LogError e] else []))"
      using m(2) by simp
    ultimately show ?thesis by blast
  next
    case (Inr v)
    show ?thesis
    proof (cases v)
      case None
      with Inr p tr1 m(2) show ?thesis by (simp add: fill_try_def)
    next
      case (Some t)
      show ?thesis
      proof (cases interactive)
        case False
        with Some Inr p tr1 m(2) show ?thesis by (simp add: fill_try_def)
      next
        case True
        show ?thesis
        proof (cases "user_input w tr1 close_prompt")
          case (Inl e)
          with True Some Inr p tr1
          have "snd (fill_try w self u submit interactive review clear tr)
              = tr @ (evs @ [Input close_prompt]
                      @ (if is_Exception e then [LogError e] else [])) @ [Quit]"
            by (simp add: fill_try_def fill_handler_def io_call_def)
          moreover have "Quit \<notin> set (evs @ [Input close_prompt]
                      @ (if is_Exception e then [LogError e] else []))"
            using m(2) by simp
          ultimately show ?thesis by blast
        next
          case (Inr s)
          with True Some \<open>r = Inr v\<close> p tr1
          have "snd (fill_try w self u submit interactive review clear tr)
              = tr @ (evs @ [Input close_prompt]) @ [Quit]"
            by (simp add: fill_try_def io_call_def)
          moreover have "Quit \<notin> set (evs @ [Input close_prompt])" using m(2) by simp
          ultimately show ?thesis by blast
        qed
      qed
    qed
  qed
qed

lemma check_url_ok:
  "fst (check_url self url) = Inr u
    \<Longrightarrow> check_url self url = (Inr u, self\<lparr>g_url := Some (Some u)\<rparr>, [])"
  by (auto simp: check_url_def Let_def split: if_splits option.splits)

text \<open>
  Claim C3, as the code has it.  When the URL passes the checks of lines 191 to 193, every run
  of \<^verbatim>\<open>fill\<close> returns a number, whatever the browser, the page and the operator do
  (completion, cancellation or any exception inside the \<^verbatim>\<open>try\<close> block), and
  \<^verbatim>\<open>driver.quit\<close> is called exactly once, as the last action.
\<close>

theorem C3_quit_exactly_once:
  assumes "fst (check_url self url) = Inr u"
  shows "(\<exists>t. fst (fill w self url submit interactive review clear) = Inr t)
         \<and> count_list (snd (snd (fill w self url submit interactive review clear))) Quit = 1
         \<and> last (snd (snd (fill w self url submit interactive review clear))) = Quit"
proof -
  let ?self = "self\<lparr>g_url := Some (Some u)\<rparr>"
  note ok = check_url_ok [OF assms]
  from fill_try_quits_once [of w ?self u submit interactive review clear "[]"]
  obtain evs where q: "snd (fill_try w ?self u submit interactive review clear [])
      = evs @ [Quit]" "Quit \<notin> set evs"
    by auto
  obtain t tr where p: "fill_try w ?self u submit interactive review clear [] = (t, tr)"
    by (cases "fill_try w ?self u submit interactive review clear []")
  with q have tr: "tr = evs @ [Quit]" by simp
  from ok p have f: "fill w self url submit interactive review clear = (Inr t, ?self, tr)"
    by (simp add: fill_def)
  have "count_list evs Quit = 0" using q(2) by (simp add: count_list_0_iff)
  with f tr show ?thesis by simp
qed

text \<open>The theorem at the URL of \<^verbatim>\<open>main.py\<close>.\<close>

theorem C3_quit_exactly_once_witness:
  "fst (check_url new_gform (Some ''https://forms.gle/z6wBJuZgUuUfbvzV7''))
     = Inr ''https://forms.gle/z6wBJuZgUuUfbvzV7''
   \<and> (\<exists>t. fst (fill (sample_world [] (\<lambda>p. [])) new_gform
               (Some ''https://forms.gle/z6wBJuZgUuUfbvzV7'') True False False False) = Inr t)
   \<and> count_list (snd (snd (fill (sample_world [] (\<lambda>p. [])) new_gform
               (Some ''https://forms.gle/z6wBJuZgUuUfbvzV7'') True False False False))) Quit = 1
   \<and> last (snd (snd (fill (sample_world [] (\<lambda>p. [])) new_gform
               (Some ''https://forms.gle/z6wBJuZgUuUfbvzV7'') True False False False))) = Quit"
proof -
  have h: "fst (check_url new_gform (Some ''https://forms.gle/z6wBJuZgUuUfbvzV7''))
     = Inr ''https://forms.gle/z6wBJuZgUuUfbvzV7''"
    by (simp add: check_url_def truthy_def re_match_https_def new_gform_def)
  from h C3_quit_exactly_once [OF h] show ?thesis by blast
qed

text \<open>
  Claim C3 as stated fails: without a URL the assertion of line 192, which stands before the
  \<^verbatim>\<open>try\<close> block, raises, and the driver is not quit.
\<close>

theorem C3_counterexample:
  "fill (sample_world [] (\<lambda>p. [])) \<lparr>g_mappings = None, g_url = Some None\<rparr>
      None True False False False
     = (Inl AssertionError, \<lparr>g_mappings = None, g_url = Some None\<rparr>,
        [LogFatal ''URL not provided''])
   \<and> count_list [LogFatal ''URL not provided''] Quit = 0"
  by (simp add: fill_def check_url_def truthy_def)

text \<open>
  Claim C7.  In interactive mode, when the URL passes the checks, navigation succeeds and the
  operator answers \<^verbatim>\<open>q\<close> at the first prompt, \<^verbatim>\<open>fill\<close> returns \<open>-1\<close>, and the events
  of the run are the navigation, the prompt and the quitting of the driver: no field is filled
  and nothing is submitted.
\<close>

theorem C7_cancel_before_filling:
  assumes "fst (check_url self url) = Inr u"
    and "driver_get w [] u = Inr ()"
    and "user_input w [Get u] start_prompt = Inr ''q''"
  shows "fst (fill w self url submit True review clear) = Inr (- 1)
         \<and> snd (snd (fill w self url submit True review clear))
             = [Get u, Input start_prompt, Quit]"
  using assms(2,3)
  by (simp add: fill_def check_url_ok [OF assms(1)] fill_try_def fill_main_def fill_start_def
      io_bind_def io_call_def io_return_def)

text \<open>The theorem in a world whose operator answers \<^verbatim>\<open>q\<close>.\<close>

theorem C7_cancel_before_filling_witness:
  "fst (fill (sample_world [] (\<lambda>p. ''q'')) new_gform
          (Some ''https://forms.gle/z6wBJuZgUuUfbvzV7'') True True False False) = Inr (- 1)
   \<and> snd (snd (fill (sample_world [] (\<lambda>p. ''q'')) new_gform
          (Some ''https://forms.gle/z6wBJuZgUuUfbvzV7'') True True False False))
       = [Get ''https://forms.gle/z6wBJuZgUuUfbvzV7'', Input start_prompt, Quit]"
proof -
  have h: "fst (check_url new_gform (Some ''https://forms.gle/z6wBJuZgUuUfbvzV7''))
     = Inr ''https://forms.gle/z6wBJuZgUuUfbvzV7''"
    by (simp add: check_url_def truthy_def re_match_https_def new_gform_def)
  have g: "driver_get (sample_world [] (\<lambda>p. ''q'')) []
      ''https://forms.gle/z6wBJuZgUuUfbvzV7'' = Inr ()"
    by (simp add: sample_world_def)
  have i: "user_input (sample_world [] (\<lambda>p. ''q''))
      [Get ''https://forms.gle/z6wBJuZgUuUfbvzV7''] start_prompt = Inr ''q''"
    by (simp add: sample_world_def)
  from C7_cancel_before_filling [OF h g i] show ?thesis .
qed

lemma check_url_rejects:
  "spec_url_absent_or_insecure self url
    \<Longrightarrow> fst (check_url self url)
          = Inl (if \<not> truthy url \<and> g_url self = None then AttributeError ''url''
                 else AssertionError)"
  by (auto simp: spec_url_absent_or_insecure_def selected_url_def check_url_def
      re_match_https_def Let_def truthy_def split: option.splits if_splits)

lemma check_url_rejects_log:
  "spec_url_absent_or_insecure self url
    \<Longrightarrow> snd (snd (check_url self url))
          = (if \<not> truthy url \<and> g_url self = None then []
             else if truthy (selected_url self url) then [LogFatal ''Invalid URL'']
             else [LogFatal ''URL not provided''])"
  by (auto simp: spec_url_absent_or_insecure_def selected_url_def check_url_def
      re_match_https_def Let_def truthy_def split: option.splits if_splits)

text \<open>
  Claim C2, as the code has it.  When the URL is absent or does not start with
  \<^verbatim>\<open>https://\<close>, the assertions before the \<^verbatim>\<open>try\<close> block raise
  \<^verbatim>\<open>AssertionError\<close> to the caller, and the only event of the call is the fatal log
  record: \<^verbatim>\<open>URL not provided\<close> for a missing or empty URL, \<^verbatim>\<open>Invalid URL\<close> otherwise.
  (When neither the argument nor the attribute exists, line 191 raises
  \<^verbatim>\<open>AttributeError\<close> and nothing is logged.)  No number is returned.  When the URL passes
  the checks and navigation raises, the exception is logged if it derives from
  \<^verbatim>\<open>Exception\<close>, the driver is quit and \<^verbatim>\<open>fill\<close> returns \<open>-1\<close>.
\<close>

theorem C2_bad_url_raises_failed_navigation_returns:
  "(spec_url_absent_or_insecure self url \<longrightarrow>
      fst (fill w self url submit interactive review clear)
        = Inl (if \<not> truthy url \<and> g_url self = None then AttributeError ''url''
               else AssertionError)
      \<and> snd (snd (fill w self url submit interactive review clear))
          = (if \<not> truthy url \<and> g_url self = None then []
             else if truthy (selected_url self url) then [LogFatal ''Invalid URL'']
             else [LogFatal ''URL not provided'']))
   \<and> (fst (check_url self url) = Inr u \<and> driver_get w [] u = Inl e \<longrightarrow>
        fst (fill w self url submit interactive review clear) = Inr (- 1)
        \<and> snd (snd (fill w self url submit interactive review clear))
            = [Get u] @ (if is_Exception e then [LogError e] else []) @ [Quit])"
proof -
  have a: "fst (fill w self url submit interactive review clear)
        = Inl (if \<not> truthy url \<and> g_url self = None then AttributeError ''url''
               else AssertionError)
      \<and> snd (snd (fill w self url submit interactive review clear))
          = (if \<not> truthy url \<and> g_url self = None then []
             else if truthy (selected_url self url) then [LogFatal ''Invalid URL'']
             else [LogFatal ''URL not provided''])"
    if bad: "spec_url_absent_or_insecure self url"
  proof -
    obtain r self' logged where c: "check_url self url = (r, self', logged)"
      by (cases "check_url self url")
    from check_url_rejects [OF bad] c
    have r: "r = Inl (if \<not> truthy url \<and> g_url self = None then AttributeError ''url''
               else AssertionError)"
      by simp
    from check_url_rejects_log [OF bad] c
    have "logged = (if \<not> truthy url \<and> g_url self = None then []
             else if truthy (selected_url self url) then [LogFatal ''Invalid URL'']
             else [LogFatal ''URL not provided''])"
      by simp
    with c r show ?thesis by (simp add: fill_def)
  qed
  have b: "fst (fill w self url submit interactive review clear) = Inr (- 1)
        \<and> snd (snd (fill w self url submit interactive review clear))
            = [Get u] @ (if is_Exception e then [LogError e] else []) @ [Quit]"
    if "fst (check_url self url) = Inr u" and "driver_get w [] u = Inl e"
    using that(2)
    by (simp add: fill_def check_url_ok [OF that(1)] fill_try_def fill_main_def fill_start_def
        fill_handler_def io_bind_def io_call_def)
  from a b show ?thesis by blast
qed

lemma waited_append: "waited (xs @ ys) = waited xs @ waited ys"
  by (induction xs rule: waited.induct) simp_all

lemma attemptsI:
  "(\<And>tr. \<exists>evs. c tr = (Inr (), tr @ evs) \<and> waited evs = ls) \<Longrightarrow> attempts ls c"
  by (simp add: attempts_def)

lemma attemptsD: "attempts ls c \<Longrightarrow> \<exists>evs. c tr = (Inr (), tr @ evs) \<and> waited evs = ls"
  by (simp add: attempts_def)

lemma page_raises_ExceptionsD:
  assumes "page_raises_Exceptions w"
  shows "wait_clickable w h l = Inl e \<Longrightarrow> is_Exception e"
    and "el_click w h el = Inl e \<Longrightarrow> is_Exception e"
    and "el_clear w h el = Inl e \<Longrightarrow> is_Exception e"
    and "el_send_keys w h el v = Inl e \<Longrightarrow> is_Exception e"
    and "el_get_attribute w h el a = Inl e \<Longrightarrow> is_Exception e"
    and "el_is_selected w h el = Inl e \<Longrightarrow> is_Exception e"
    and "find_element_id w h i = Inl e \<Longrightarrow> is_Exception e"
proof -
  from assms have
    a: "\<And>h l. fails_as_Exception (wait_clickable w h l)" and
    b: "\<And>h el. fails_as_Exception (el_click w h el)" and
    c: "\<And>h el. fails_as_Exception (el_clear w h el)" and
    d: "\<And>h el v. fails_as_Exception (el_send_keys w h el v)" and
    e: "\<And>h el a. fails_as_Exception (el_get_attribute w h el a)" and
    f: "\<And>h el. fails_as_Exception (el_is_selected w h el)" and
    g: "\<And>h i. fails_as_Exception (find_element_id w h i)"
    by (simp_all add: page_raises_Exceptions_def)
  show "wait_clickable w h l = Inl e \<Longrightarrow> is_Exception e"
    using a [of h l] by (simp add: fails_as_Exception_def)
  show "el_click w h el = Inl e \<Longrightarrow> is_Exception e"
    using b [of h el] by (simp add: fails_as_Exception_def)
  show "el_clear w h el = Inl e \<Longrightarrow> is_Exception e"
    using c [of h el] by (simp add: fails_as_Exception_def)
  show "el_send_keys w h el v = Inl e \<Longrightarrow> is_Exception e"
    using d [of h el v] by (simp add: fails_as_Exception_def)
  show "el_get_attribute w h el a = Inl e \<Longrightarrow> is_Exception e"
    using e [of h el a] by (simp add: fails_as_Exception_def)
  show "el_is_selected w h el = Inl e \<Longrightarrow> is_Exception e"
    using f [of h el] by (simp add: fails_as_Exception_def)
  show "find_element_id w h i = Inl e \<Longrightarrow> is_Exception e"
    using g [of h i] by (simp add: fails_as_Exception_def)
qed

lemma attempts_fill_text:
  assumes "page_raises_Exceptions w"
  shows "attempts [l] (fill_text w (l, v))"
  by (rule attemptsI)
    (auto simp: fill_text_def try_field_def io_bind_def io_call_def io_return_def io_raise_def
      split: sum.splits dest: page_raises_ExceptionsD [OF assms])

lemma attempts_fill_radio:
  assumes "page_raises_Exceptions w"
  shows "attempts [l] (fill_radio w l)"
  by (rule attemptsI)
    (auto simp: fill_radio_def try_field_def io_bind_def io_call_def io_return_def
      split: sum.splits dest: page_raises_ExceptionsD [OF assms])

lemma attempts_fill_checkbox:
  assumes "page_raises_Exceptions w"
  shows "attempts [l] (fill_checkbox w l)"
  by (rule attemptsI)
    (auto simp: fill_checkbox_def try_field_def io_bind_def io_call_def io_return_def
      split: sum.splits dest: page_raises_ExceptionsD [OF assms])

lemma attempts_for_each:
  assumes "\<And>x. attempts [key x] (body x)"
  shows "attempts (map key xs) (for_each body xs)"
proof (rule attemptsI)
  fix tr
  show "\<exists>evs. for_each body xs tr = (Inr (), tr @ evs) \<and> waited evs = map key xs"
  proof (induction xs arbitrary: tr)
    case Nil
    show ?case by simp
  next
    case (Cons x xs)
    from attemptsD [OF assms, of x tr]
    obtain evs where b: "body x tr = (Inr (), tr @ evs)" "waited evs = [key x]" by blast
    from Cons.IH [of "tr @ evs"] obtain evs' where
      r: "for_each body xs (tr @ evs) = (Inr (), (tr @ evs) @ evs')" "waited evs' = map key xs"
      by blast
    from b r have "for_each body (x # xs) tr = (Inr (), tr @ (evs @ evs'))"
      "waited (evs @ evs') = map key (x # xs)"
      by (simp_all add: waited_append)
    then show ?case by blast
  qed
qed

lemma attempts_bind:
  assumes "attempts ls c" and "\<And>x. attempts ls' (f x)"
  shows "attempts (ls @ ls') (io_bind c f)"
proof (rule attemptsI)
  fix tr
  from attemptsD [OF assms(1), of tr]
  obtain evs where c: "c tr = (Inr (), tr @ evs)" "waited evs = ls" by blast
  from attemptsD [OF assms(2), of "()" "tr @ evs"]
  obtain evs' where f: "f () (tr @ evs) = (Inr (), (tr @ evs) @ evs')" "waited evs' = ls'"
    by blast
  from c f have "io_bind c f tr = (Inr (), tr @ (evs @ evs'))" "waited (evs @ evs') = ls @ ls'"
    by (simp_all add: io_bind_def waited_append)
  then show "\<exists>evs. io_bind c f tr = (Inr (), tr @ evs) \<and> waited evs = ls @ ls'" by blast
qed

lemma attempts_fill_fields:
  assumes "page_raises_Exceptions w" and "g_mappings self = Some m"
  shows "attempts (map fst (m_text m) @ m_radio m @ m_checkbox m) (fill_fields w self)"
proof -
  have t: "attempts (map fst (m_text m)) (for_each (fill_text w) (m_text m))"
  proof (rule attempts_for_each)
    fix x :: "string \<times> string"
    show "attempts [fst x] (fill_text w x)"
      using attempts_fill_text [OF assms(1), of "fst x" "snd x"] by simp
  qed
  have r: "attempts (map (\<lambda>l. l) (m_radio m)) (for_each (fill_radio w) (m_radio m))"
    by (rule attempts_for_each) (rule attempts_fill_radio [OF assms(1)])
  have c: "attempts (map (\<lambda>l. l) (m_checkbox m)) (for_each (fill_checkbox w) (m_checkbox m))"
    by (rule attempts_for_each) (rule attempts_fill_checkbox [OF assms(1)])
  have "attempts (map fst (m_text m) @ map (\<lambda>l. l) (m_radio m) @ map (\<lambda>l. l) (m_checkbox m))
     (io_bind (for_each (fill_text w) (m_text m)) (\<lambda>_.
      io_bind (for_each (fill_radio w) (m_radio m)) (\<lambda>_.
      for_each (fill_checkbox w) (m_checkbox m))))"
    by (intro attempts_bind t r c)
  with assms(2) show ?thesis by (simp add: fill_fields_def)
qed

lemma fill_submit_events:
  assumes "submit \<longrightarrow> \<not> (review \<and> interactive) \<or> proceeds_at_review w"
  shows "\<exists>r. fill_submit w submit interactive review tr
           = (r, tr @ (if submit
                       then review_events review interactive
                              @ submit_attempt w (tr @ review_events review interactive)
                       else []))"
proof (cases submit)
  case False
  then show ?thesis by (simp add: fill_submit_def io_return_def)
next
  case True
  show ?thesis
  proof (cases "review \<and> interactive")
    case False
    with True show ?thesis
      by (auto simp: fill_submit_def io_bind_def io_call_def io_return_def submit_attempt_def
          review_events_def submit_xpath_def split: sum.splits)
  next
    case ri: True
    with True assms have "proceeds_at_review w" by simp
    then have "case user_input w tr review_prompt of Inl e \<Rightarrow> False | Inr s \<Rightarrow> s \<noteq> ''q''"
      unfolding proceeds_at_review_def by (rule spec)
    then obtain s where s: "user_input w tr review_prompt = Inr s" "s \<noteq> ''q''"
      by (cases "user_input w tr review_prompt") simp_all
    with True ri show ?thesis
      by (auto simp: fill_submit_def io_bind_def io_call_def io_return_def submit_attempt_def
          review_events_def submit_xpath_def review_prompt_def split: sum.splits)
  qed
qed

lemma waited_submit_attempt: \<open>waited (submit_attempt w h) = [''//span[text()="Submit"]'']\<close>
  by (simp add: submit_attempt_def split: sum.splits)

lemma waited_review_events: "waited (review_events review interactive) = []"
  by (simp add: review_events_def)

text \<open>
  Claim C5.  Let a run reach the field loops (the URL passes the checks, navigation succeeds,
  the operator does not quit at the first prompt and the form is cleared if that was asked),
  let every exception of the page derive from \<^verbatim>\<open>Exception\<close>, as a locate timeout and a
  value mismatch do, and let the operator not cancel at the review prompt.  Then, whichever
  field attempts fail, the loops run to their end: the run waits for every text, radio and
  checkbox locator in the order of the mappings, and, if submission was requested, a submit
  attempt follows the loops (after the review prompt, when there is one): the run waits for
  the submit control and clicks it when the wait finds it.  Nothing else is waited for.
\<close>

theorem C5_field_failures_absorbed:
  assumes "fst (check_url self url) = Inr u"
    and "g_mappings self = Some m"
    and "page_raises_Exceptions w"
    and "fill_start w u interactive clear [] = (Inr (Some start), tr0)"
    and "submit \<longrightarrow> \<not> (review \<and> interactive) \<or> proceeds_at_review w"
  shows \<open>(\<exists>evs rest.
            snd (snd (fill w self url submit interactive review clear))
              = tr0 @ evs
                  @ (if submit
                     then review_events review interactive
                            @ submit_attempt w (tr0 @ evs @ review_events review interactive)
                     else [])
                  @ rest
            \<and> waited evs = map fst (m_text m) @ m_radio m @ m_checkbox m
            \<and> waited rest = [])
         \<and> waited (snd (snd (fill w self url submit interactive review clear)))
             = waited tr0 @ map fst (m_text m) @ m_radio m @ m_checkbox m
                 @ (if submit then [''//span[text()="Submit"]''] else [])\<close>
proof -
  let ?self = "self\<lparr>g_url := Some (Some u)\<rparr>"
  have m: "g_mappings ?self = Some m" using assms(2) by simp
  from attemptsD [OF attempts_fill_fields [OF assms(3) m], of tr0]
  obtain evs where f: "fill_fields w ?self tr0 = (Inr (), tr0 @ evs)"
    "waited evs = map fst (m_text m) @ m_radio m @ m_checkbox m"
    by blast
  define sub where "sub = (if submit
                     then review_events review interactive
                            @ submit_attempt w (tr0 @ evs @ review_events review interactive)
                     else [])"
  from fill_submit_events [OF assms(5), of "tr0 @ evs"]
  obtain r where s: "fill_submit w submit interactive review (tr0 @ evs)
      = (r, (tr0 @ evs) @ sub)"
    by (auto simp: sub_def)
  have wsub: \<open>waited sub = (if submit then [''//span[text()="Submit"]''] else [])\<close>
    by (simp add: sub_def waited_append waited_submit_attempt waited_review_events)
  have "\<exists>rest. snd (fill_try w ?self u submit interactive review clear [])
      = tr0 @ evs @ sub @ rest \<and> waited rest = []"
  proof (cases r)
    case (Inl e)
    with assms(4) f(1) s
    have "snd (fill_try w ?self u submit interactive review clear [])
        = tr0 @ evs @ sub @ ((if is_Exception e then [LogError e] else []) @ [Quit])"
      by (simp add: fill_try_def fill_main_def io_bind_def fill_handler_def)
    moreover have "waited ((if is_Exception e then [LogError e] else []) @ [Quit]) = []"
      by simp
    ultimately show ?thesis by blast
  next
    case (Inr x)
    show ?thesis
    proof (cases interactive)
      case False
      with Inr assms(4) f(1) s
      have "snd (fill_try w ?self u submit interactive review clear [])
          = tr0 @ evs @ sub @ [Time, Quit]"
        by (simp add: fill_try_def fill_main_def io_bind_def io_call_def io_return_def)
      moreover have "waited [Time, Quit] = []" by simp
      ultimately show ?thesis by blast
    next
      case True
      show ?thesis
      proof (cases "user_input w (tr0 @ evs @ sub @ [Time]) close_prompt")
        case (Inl e)
        with True \<open>r = Inr x\<close> assms(4) f(1) s
        have "snd (fill_try w ?self u submit interactive review clear [])
            = tr0 @ evs @ sub
                @ ([Time, Input close_prompt] @ (if is_Exception e then [LogError e] else [])
                   @ [Quit])"
          by (simp add: fill_try_def fill_main_def io_bind_def io_call_def io_return_def
              fill_handler_def)
        moreover have "waited ([Time, Input close_prompt]
            @ (if is_Exception e then [LogError e] else []) @ [Quit]) = []"
          by simp
        ultimately show ?thesis by blast
      next
        case (Inr a)
        with True \<open>r = Inr x\<close> assms(4) f(1) s
        have "snd (fill_try w ?self u submit interactive review clear [])
            = tr0 @ evs @ sub @ [Time, Input close_prompt, Quit]"
          by (simp add: fill_try_def fill_main_def io_bind_def io_call_def io_return_def)
        moreover have "waited [Time, Input close_prompt, Quit] = []" by simp
        ultimately show ?thesis by blast
      qed
    qed
  qed
  then obtain rest where t: "snd (fill_try w ?self u submit interactive review clear [])
      = tr0 @ evs @ sub @ rest" "waited rest = []"
    by blast
  have eq: "snd (snd (fill w self url submit interactive review clear))
      = snd (fill_try w ?self u submit interactive review clear [])"
    by (cases "fill_try w ?self u submit interactive review clear []")
      (simp add: fill_def check_url_ok [OF assms(1)])
  have 1: "\<exists>evs rest.
            snd (snd (fill w self url submit interactive review clear))
              = tr0 @ evs
                  @ (if submit
                     then review_events review interactive
                            @ submit_attempt w (tr0 @ evs @ review_events review interactive)
                     else [])
                  @ rest
            \<and> waited evs = map fst (m_text m) @ m_radio m @ m_checkbox m
            \<and> waited rest = []"
  proof (intro exI conjI)
    show "snd (snd (fill w self url submit interactive review clear))
              = tr0 @ evs
                  @ (if submit
                     then review_events review interactive
                            @ submit_attempt w (tr0 @ evs @ review_events review interactive)
                     else [])
                  @ rest"
      using eq t(1) unfolding sub_def by simp
    show "waited evs = map fst (m_text m) @ m_radio m @ m_checkbox m" by (rule f(2))
    show "waited rest = []" by (rule t(2))
  qed
  have 2: \<open>waited (snd (snd (fill w self url submit interactive review clear)))
             = waited tr0 @ map fst (m_text m) @ m_radio m @ m_checkbox m
                 @ (if submit then [''//span[text()="Submit"]''] else [])\<close>
    using eq t f(2) wsub by (simp add: waited_append)
  from 1 2 show ?thesis by (rule conjI)
qed

lemmas fill_eval =
  fill_def check_url_def truthy_def re_match_https_def fill_try_def fill_main_def
  fill_start_def fill_fields_def fill_submit_def fill_text_def fill_radio_def
  fill_checkbox_def try_field_def fill_handler_def io_bind_def io_call_def io_emit_def
  io_return_def io_raise_def sample_world_def sample_gform_def Let_def

lemma sample_xpaths_differ:
  "input_xpath ''Name'' [''text''] \<noteq> input_xpath ''Email'' [''email'']"
  "label_xpath ''DMSO'' \<noteq> input_xpath ''Email'' [''email'']"
  "label_xpath ''exp-1'' \<noteq> input_xpath ''Email'' [''email'']"
  "submit_xpath \<noteq> input_xpath ''Email'' [''email'']"
  "submit_xpath \<noteq> input_xpath ''Name'' [''text'']"
  "submit_xpath \<noteq> label_xpath ''DMSO''"
  "submit_xpath \<noteq> label_xpath ''exp-1''"
  by (simp_all add: input_xpath_def label_xpath_def span_contains_def submit_xpath_def)

lemma sample_prompts_differ:
  "start_prompt \<noteq> review_prompt" "close_prompt \<noteq> review_prompt"
  by (simp_all add: start_prompt_def review_prompt_def close_prompt_def)

text \<open>
  The theorem in a world where the wait for the first text field times out: the warning is
  logged, the other fields are filled, and the submit control is waited for and clicked.
\<close>

theorem C5_field_failures_absorbed_witness:
  \<open>waited (snd (snd (fill (sample_world [input_xpath ''Email'' [''email'']] (\<lambda>p. []))
       sample_gform (Some ''https://forms.gle/z6wBJuZgUuUfbvzV7'') True False False False)))
     = [input_xpath ''Email'' [''email''], input_xpath ''Name'' [''text''],
        label_xpath ''DMSO'', label_xpath ''exp-1'', ''//span[text()="Submit"]'']
   \<and> snd (snd (fill (sample_world [input_xpath ''Email'' [''email'']] (\<lambda>p. []))
       sample_gform (Some ''https://forms.gle/z6wBJuZgUuUfbvzV7'') True False False False))
     = [Get ''https://forms.gle/z6wBJuZgUuUfbvzV7'', Sleep, Time,
        WaitClickable (input_xpath ''Email'' [''email'']),
        LogWarning (input_xpath ''Email'' [''email'']),
        WaitClickable (input_xpath ''Name'' [''text'']), Clear 0, SendKeys 0 ''Alex'',
        GetAttribute 0 ''value'',
        WaitClickable (label_xpath ''DMSO''), IsSelected 0, Click 0,
        WaitClickable (label_xpath ''exp-1''), GetAttribute 0 ''for'',
        FindElementById (Some ''i5''), GetAttribute 1 ''aria-checked'', Click 0,
        WaitClickable ''//span[text()="Submit"]'', Click 0, Time, Quit]\<close>
proof -
  let ?w = "sample_world [input_xpath ''Email'' [''email'']] (\<lambda>p. [])"
  let ?u = "''https://forms.gle/z6wBJuZgUuUfbvzV7''"
  have h1: "fst (check_url sample_gform (Some ?u)) = Inr ?u"
    by (simp add: check_url_def truthy_def re_match_https_def)
  have h2: "g_mappings sample_gform
      = Some \<lparr>m_text = [(input_xpath ''Email'' [''email''], ''a@b.c''),
                        (input_xpath ''Name'' [''text''], ''Alex'')],
              m_radio = [label_xpath ''DMSO''], m_checkbox = [label_xpath ''exp-1''],
              m_fallbacks = []\<rparr>"
    by (simp add: sample_gform_def)
  have h3: "page_raises_Exceptions ?w"
    by (simp add: page_raises_Exceptions_def fails_as_Exception_def sample_world_def)
  have h4: "fill_start ?w ?u False False [] = (Inr (Some 2), [Get ?u, Sleep, Time])"
    by (simp add: fill_start_def io_bind_def io_call_def io_emit_def io_return_def
        sample_world_def)
  have h5: "True \<longrightarrow> \<not> (False \<and> False) \<or> proceeds_at_review ?w" by simp
  have run0: "snd (snd (fill ?w sample_gform (Some ?u) True False False False))
     = [Get ''https://forms.gle/z6wBJuZgUuUfbvzV7'', Sleep, Time,
        WaitClickable (input_xpath ''Email'' [''email'']),
        LogWarning (input_xpath ''Email'' [''email'']),
        WaitClickable (input_xpath ''Name'' [''text'']), Clear 0, SendKeys 0 ''Alex'',
        GetAttribute 0 ''value'',
        WaitClickable (label_xpath ''DMSO''), IsSelected 0, Click 0,
        WaitClickable (label_xpath ''exp-1''), GetAttribute 0 ''for'',
        FindElementById (Some ''i5''), GetAttribute 1 ''aria-checked'', Click 0,
        WaitClickable submit_xpath, Click 0, Time, Quit]"
    by (simp add: fill_eval sample_xpaths_differ)
  have run: \<open>snd (snd (fill ?w sample_gform (Some ?u) True False False False))
     = [Get ''https://forms.gle/z6wBJuZgUuUfbvzV7'', Sleep, Time,
        WaitClickable (input_xpath ''Email'' [''email'']),
        LogWarning (input_xpath ''Email'' [''email'']),
        WaitClickable (input_xpath ''Name'' [''text'']), Clear 0, SendKeys 0 ''Alex'',
        GetAttribute 0 ''value'',
        WaitClickable (label_xpath ''DMSO''), IsSelected 0, Click 0,
        WaitClickable (label_xpath ''exp-1''), GetAttribute 0 ''for'',
        FindElementById (Some ''i5''), GetAttribute 1 ''aria-checked'', Click 0,
        WaitClickable ''//span[text()="Submit"]'', Click 0, Time, Quit]\<close>
    unfolding run0 by (simp add: submit_xpath_def)
  from C5_field_failures_absorbed [OF h1 h2 h3 h4 h5]
  have wt: \<open>waited (snd (snd (fill ?w sample_gform (Some ?u) True False False False)))
     = [input_xpath ''Email'' [''email''], input_xpath ''Name'' [''text''],
        label_xpath ''DMSO'', label_xpath ''exp-1'', ''//span[text()="Submit"]'']\<close>
    by simp
  from wt run show ?thesis by (rule conjI)
qed

text \<open>
  The review checkpoint stands between the loops and the submit attempt: when the operator
  answers \<^verbatim>\<open>q\<close> there, the fields have been attempted and nothing is submitted.
\<close>

lemma fill_review_cancel_skips_submit:
  "snd (snd (fill (sample_world [input_xpath ''Email'' [''email'']]
                (\<lambda>p. if p = review_prompt then ''q'' else []))
          sample_gform (Some ''https://forms.gle/z6wBJuZgUuUfbvzV7'') True True True False))
   = [Get ''https://forms.gle/z6wBJuZgUuUfbvzV7'', Input start_prompt, Time,
      WaitClickable (input_xpath ''Email'' [''email'']),
      LogWarning (input_xpath ''Email'' [''email'']),
      WaitClickable (input_xpath ''Name'' [''text'']), Clear 0, SendKeys 0 ''Alex'',
      GetAttribute 0 ''value'',
      WaitClickable (label_xpath ''DMSO''), IsSelected 0, Click 0,
      WaitClickable (label_xpath ''exp-1''), GetAttribute 0 ''for'',
      FindElementById (Some ''i5''), GetAttribute 1 ''aria-checked'', Click 0,
      Input review_prompt, Time, Input close_prompt, Quit]"
  by (simp add: fill_eval sample_xpaths_differ sample_prompts_differ)

text \<open>
  Claim C2 as stated fails: with a URL that does not use \<^verbatim>\<open>https\<close> the call raises
  \<^verbatim>\<open>AssertionError\<close> instead of returning \<open>-1\<close>.
\<close>

theorem C2_counterexample:
  "fill (sample_world [] (\<lambda>p. [])) sample_gform (Some ''http://forms.gle/z6wBJuZgUuUfbvzV7'')
      True False False False
     = (Inl AssertionError,
        sample_gform\<lparr>g_url := Some (Some ''http://forms.gle/z6wBJuZgUuUfbvzV7'')\<rparr>,
        [LogFatal ''Invalid URL''])"
  by (simp add: fill_def check_url_def truthy_def re_match_https_def)

text \<open>
  The theorem without a URL, with a URL that does not use \<^verbatim>\<open>https\<close>, and with a URL
  whose navigation fails.
\<close>

theorem C2_bad_url_raises_failed_navigation_returns_witness:
  "spec_url_absent_or_insecure sample_gform None
   \<and> fst (fill (sample_world [] (\<lambda>p. [])) sample_gform None True False False False)
       = Inl AssertionError
   \<and> snd (snd (fill (sample_world [] (\<lambda>p. [])) sample_gform None True False False False))
       = [LogFatal ''URL not provided'']
   \<and> spec_url_absent_or_insecure sample_gform (Some ''ftp://forms.gle/z6wBJuZgUuUfbvzV7'')
   \<and> fst (fill (sample_world [] (\<lambda>p. [])) sample_gform
            (Some ''ftp://forms.gle/z6wBJuZgUuUfbvzV7'') True False False False)
       = Inl AssertionError
   \<and> snd (snd (fill (sample_world [] (\<lambda>p. [])) sample_gform
            (Some ''ftp://forms.gle/z6wBJuZgUuUfbvzV7'') True False False False))
       = [LogFatal ''Invalid URL'']
   \<and> fst (check_url sample_gform (Some ''https://forms.gle/z6wBJuZgUuUfbvzV7''))
       = Inr ''https://forms.gle/z6wBJuZgUuUfbvzV7''
   \<and> fst (fill ((sample_world [] (\<lambda>p. []))\<lparr>driver_get := \<lambda>h u. Inl WebDriverException\<rparr>)
            sample_gform (Some ''https://forms.gle/z6wBJuZgUuUfbvzV7'') True False False False)
       = Inr (- 1)
   \<and> snd (snd (fill ((sample_world [] (\<lambda>p. []))\<lparr>driver_get := \<lambda>h u. Inl WebDriverException\<rparr>)
            sample_gform (Some ''https://forms.gle/z6wBJuZgUuUfbvzV7'') True False False False))
       = [Get ''https://forms.gle/z6wBJuZgUuUfbvzV7'', LogError WebDriverException, Quit]"
proof -
  let ?u = "''https://forms.gle/z6wBJuZgUuUfbvzV7''"
  let ?f = "''ftp://forms.gle/z6wBJuZgUuUfbvzV7''"
  let ?w = "(sample_world [] (\<lambda>p. []))\<lparr>driver_get := \<lambda>h u. Inl WebDriverException\<rparr>"
  have bad: "spec_url_absent_or_insecure sample_gform None"
    by (simp add: spec_url_absent_or_insecure_def selected_url_def truthy_def sample_gform_def)
  have bad': "spec_url_absent_or_insecure sample_gform (Some ?f)"
    by (simp add: spec_url_absent_or_insecure_def selected_url_def truthy_def)
  have ok: "fst (check_url sample_gform (Some ?u)) = Inr ?u"
    by (simp add: check_url_def truthy_def re_match_https_def)
  have nav: "driver_get ?w [] ?u = Inl WebDriverException" by simp
  from bad
    C2_bad_url_raises_failed_navigation_returns [of sample_gform None "sample_world [] (\<lambda>p. [])"
      True False False False]
  have a: "fst (fill (sample_world [] (\<lambda>p. [])) sample_gform None True False False False)
       = Inl AssertionError
     \<and> snd (snd (fill (sample_world [] (\<lambda>p. [])) sample_gform None True False False False))
       = [LogFatal ''URL not provided'']"
    by (simp add: truthy_def selected_url_def sample_gform_def)
  from bad'
    C2_bad_url_raises_failed_navigation_returns [of sample_gform "Some ?f"
      "sample_world [] (\<lambda>p. [])" True False False False]
  have a': "fst (fill (sample_world [] (\<lambda>p. [])) sample_gform (Some ?f) True False False False)
       = Inl AssertionError
     \<and> snd (snd (fill (sample_world [] (\<lambda>p. [])) sample_gform (Some ?f) True False False
            False))
       = [LogFatal ''Invalid URL'']"
    by (simp add: truthy_def selected_url_def)
  from ok nav
    C2_bad_url_raises_failed_navigation_returns [of sample_gform "Some ?u" ?w
      True False False False ?u WebDriverException]
  have b: "fst (fill ?w sample_gform (Some ?u) True False False False) = Inr (- 1)
     \<and> snd (snd (fill ?w sample_gform (Some ?u) True False False False))
       = [Get ?u, LogError WebDriverException, Quit]"
    by simp
  from bad a bad' a' ok b show ?thesis by blast
qed

end
